theory Spec2Isabelle
  imports Main "HOL-Library.AList" "HOL-Library.Sublist"
begin

section \<open>Values of the document store\<close>

text \<open>
  The handlers of \<^verbatim>\<open>main.py\<close> work on the dicts the document store returns. A value of
  such a dict is \<^verbatim>\<open>None\<close>, a \<^verbatim>\<open>str\<close>, an \<^verbatim>\<open>ObjectId\<close>, a \<^verbatim>\<open>datetime\<close>, a list
  or a nested dict: these are the kinds of value the models of \<^verbatim>\<open>schemas.py\<close> hold
  (no schema has a numeric or boolean field). A dict is an association list in insertion
  order.

  A \<^verbatim>\<open>str\<close> is a \<open>string\<close>. An \<^verbatim>\<open>ObjectId\<close> is written as the lower-case hexadecimal
  text of its bytes, which is what \<^verbatim>\<open>str\<close> returns for it. A naive \<^verbatim>\<open>datetime\<close> is the
  number of microseconds since the midnight that precedes day 1 of the proleptic
  Gregorian calendar (ordinal 1 is 0001-01-01), so that adding a \<^verbatim>\<open>timedelta\<close> is adding
  its microseconds. The upper end of the library's range (year 9999), where such an
  addition raises, is far from any reading of the wall clock and is left out.
\<close>

type_synonym ObjectId = string
type_synonym datetime = int

datatype pyval =
    PNone
  | PStr string
  | PObjectId ObjectId
  | PDatetime datetime
  | PList "pyval list"
  | PDict "(string \<times> pyval) list"

type_synonym pydict = "(string \<times> pyval) list"

datatype error =
    InvalidId            \<comment> \<open>HTTP 400, "Invalid id"\<close>
  | ClientNotFound       \<comment> \<open>HTTP 404, "Client not found"\<close>
  | WorkflowNotFound     \<comment> \<open>HTTP 404, "Workflow not found"\<close>
  | StepNotFound         \<comment> \<open>HTTP 404, "Step not found"\<close>
  | KeyError
  | AttributeError
  | TypeError
  | ValidationError      \<comment> \<open>raised by a pydantic model's constructor\<close>

text \<open>\<^verbatim>\<open>d.get(k)\<close>, \<^verbatim>\<open>d.get(k, default)\<close>, \<^verbatim>\<open>d[k]\<close> and \<^verbatim>\<open>d[k] = v\<close>.\<close>

definition dict_get :: "pydict \<Rightarrow> string \<Rightarrow> pyval" where
  "dict_get d k = (case map_of d k of None \<Rightarrow> PNone | Some v \<Rightarrow> v)"

definition dict_get_default :: "pydict \<Rightarrow> string \<Rightarrow> pyval \<Rightarrow> pyval" where
  "dict_get_default d k dflt = (case map_of d k of None \<Rightarrow> dflt | Some v \<Rightarrow> v)"

definition dict_item :: "pydict \<Rightarrow> string \<Rightarrow> error + pyval" where
  "dict_item d k = (case map_of d k of None \<Rightarrow> Inl KeyError | Some v \<Rightarrow> Inr v)"

definition dict_set :: "pydict \<Rightarrow> string \<Rightarrow> pyval \<Rightarrow> pydict" where
  "dict_set d k v = AList.update k v d"

text \<open>Truth value of a value, and \<^verbatim>\<open>a or b\<close>.\<close>

fun truthy :: "pyval \<Rightarrow> bool" where
  "truthy PNone = False"
| "truthy (PStr s) = (s \<noteq> [])"
| "truthy (PObjectId i) = True"
| "truthy (PDatetime t) = True"
| "truthy (PList xs) = (xs \<noteq> [])"
| "truthy (PDict d) = (d \<noteq> [])"

definition py_or :: "pyval \<Rightarrow> pyval \<Rightarrow> pyval" where
  "py_or a b = (if truthy a then a else b)"

text \<open>
  \<^verbatim>\<open>str.lower\<close> on the ASCII letters; the other characters (the bytes of a non-ASCII
  code point) stay as they are. No code point outside ASCII has \<^verbatim>\<open>g\<close>, \<^verbatim>\<open>s\<close> or \<^verbatim>\<open>t\<close>
  as its lower case, so the test for \<^verbatim>\<open>"gst"\<close> below reads the same. A value that is
  not a \<^verbatim>\<open>str\<close> has no method \<^verbatim>\<open>lower\<close>.
\<close>

definition lower_char :: "char \<Rightarrow> char" where
  "lower_char c =
     (let n = (of_char c :: nat) in if 65 \<le> n \<and> n \<le> 90 then char_of (n + 32) else c)"

definition lower :: "string \<Rightarrow> string" where
  "lower s = map lower_char s"

definition py_lower :: "pyval \<Rightarrow> error + string" where
  "py_lower v = (case v of PStr s \<Rightarrow> Inr (lower s) | _ \<Rightarrow> Inl AttributeError)"

text \<open>\<^verbatim>\<open>sub in s\<close> on two strings: \<^verbatim>\<open>sub\<close> occurs in \<^verbatim>\<open>s\<close> as a contiguous run.\<close>

fun str_contains :: "string \<Rightarrow> string \<Rightarrow> bool" where
  "str_contains sub [] = (sub = [])"
| "str_contains sub (c # cs) = (prefix sub (c # cs) \<or> str_contains sub cs)"

text \<open>
  \<^verbatim>\<open>str(v)\<close>, which is also what an f-string puts in place of \<^verbatim>\<open>{v}\<close>. The text of a
  datetime, a list or a dict is the library's business and nothing below depends on it:
  it is the parameter \<open>render\<close>.
\<close>

definition py_str :: "(pyval \<Rightarrow> string) \<Rightarrow> pyval \<Rightarrow> string" where
  "py_str render v =
     (case v of PStr s \<Rightarrow> s | PObjectId i \<Rightarrow> i | PNone \<Rightarrow> ''None'' | _ \<Rightarrow> render v)"

section \<open>Dates\<close>

text \<open>
  \<^verbatim>\<open>timedelta(days=n)\<close> and the calendar arithmetic of the \<^verbatim>\<open>datetime\<close> module
  (\<^verbatim>\<open>_is_leap\<close>, \<^verbatim>\<open>_days_before_year\<close>, \<^verbatim>\<open>_days_before_month\<close>, \<^verbatim>\<open>_ymd2ord\<close>), used to
  write an instant by its calendar date.
\<close>

definition timedelta_days :: "int \<Rightarrow> int" where
  "timedelta_days n = n * 86400000000"

definition is_leap :: "int \<Rightarrow> bool" where
  "is_leap y = (y mod 4 = 0 \<and> (y mod 100 \<noteq> 0 \<or> y mod 400 = 0))"

definition days_before_year :: "int \<Rightarrow> int" where
  "days_before_year year = (let y = year - 1 in y * 365 + y div 4 - y div 100 + y div 400)"

definition days_in_month :: "int list" where
  "days_in_month = [31, 28, 31, 30, 31, 30, 31, 31, 30, 31, 30, 31]"

definition days_before_month :: "int \<Rightarrow> int \<Rightarrow> int" where
  "days_before_month year month =
     sum_list (take (nat (month - 1)) days_in_month)
       + (if month > 2 \<and> is_leap year then 1 else 0)"

definition ymd2ord :: "int \<Rightarrow> int \<Rightarrow> int \<Rightarrow> int" where
  "ymd2ord year month day = days_before_year year + days_before_month year month + day"

text \<open>\<^verbatim>\<open>datetime(year, month, day, hour, minute, second)\<close> for a valid calendar date.\<close>

definition mk_datetime :: "int \<Rightarrow> int \<Rightarrow> int \<Rightarrow> int \<Rightarrow> int \<Rightarrow> int \<Rightarrow> datetime" where
  "mk_datetime year month day hour minute second =
     (((ymd2ord year month day * 24 + hour) * 60 + minute) * 60 + second) * 1000000"

section \<open>The schemas\<close>

text \<open>\<^verbatim>\<open>WorkflowStep\<close> and \<^verbatim>\<open>Workflow\<close> of \<^verbatim>\<open>schemas.py\<close>.\<close>

record WorkflowStep =
  key :: string
  title :: string
  description :: "string option"
  category :: string
  required_documents :: "string list"
  assigned_to :: "string option"
  due_date :: "datetime option"
  status :: string
  dependencies :: "string list"

record Workflow =
  client_id :: string
  client_type :: string
  fiscal_year :: "string option"
  version :: string
  steps :: "WorkflowStep list"

text \<open>
  The constructor call \<^verbatim>\<open>WorkflowStep(key=..., title=..., category=..., ...)\<close>: the
  fields a template does not pass take the defaults of the schema (\<^verbatim>\<open>status\<close> is
  \<^verbatim>\<open>"todo"\<close>, the lists are empty, \<^verbatim>\<open>assigned_to\<close> is \<^verbatim>\<open>None\<close>).
\<close>

definition mk_WorkflowStep ::
  "string \<Rightarrow> string \<Rightarrow> string \<Rightarrow> string list \<Rightarrow> string list \<Rightarrow> string option \<Rightarrow> datetime
     \<Rightarrow> WorkflowStep" where
  "mk_WorkflowStep k t c docs deps descr due =
     \<lparr> key = k, title = t, description = descr, category = c, required_documents = docs,
       assigned_to = None, due_date = Some due, status = ''todo'', dependencies = deps \<rparr>"

text \<open>
  Validation of the two fields of \<^verbatim>\<open>Workflow\<close> that \<^verbatim>\<open>build_workflow_for_client\<close> fills
  from the client dict: a \<^verbatim>\<open>str\<close> field takes a string only, an \<^verbatim>\<open>Optional[str]\<close> field
  also \<^verbatim>\<open>None\<close>.
\<close>

definition validate_str :: "pyval \<Rightarrow> error + string" where
  "validate_str v = (case v of PStr s \<Rightarrow> Inr s | _ \<Rightarrow> Inl ValidationError)"

definition validate_opt_str :: "pyval \<Rightarrow> error + string option" where
  "validate_opt_str v =
     (case v of PStr s \<Rightarrow> Inr (Some s) | PNone \<Rightarrow> Inr None | _ \<Rightarrow> Inl ValidationError)"

section \<open>Workflow templates\<close>

text \<open>
  \<^verbatim>\<open>gst_workflow_template\<close>, \<^verbatim>\<open>generic_workflow_template\<close> and
  \<^verbatim>\<open>build_workflow_for_client\<close>. Each template reads the clock once
  (\<^verbatim>\<open>datetime.utcnow()\<close>); the reading is the parameter \<open>today\<close>.
\<close>

definition gst_workflow_template ::
  "(pyval \<Rightarrow> string) \<Rightarrow> datetime \<Rightarrow> pydict \<Rightarrow> WorkflowStep list" where
  "gst_workflow_template render today client =
     (let fy = py_or (dict_get client ''fiscal_year'') (PStr ''Current FY'');
          base_due = today + timedelta_days 14
      in [ mk_WorkflowStep ''collect_gstr'' ''Collect GSTR-1, GSTR-3B, GSTR-2B'' ''documents''
             [''GSTR-1'', ''GSTR-3B'', ''GSTR-2B''] []
             (Some (''Collect GST returns for '' @ py_str render fy)) base_due,
           mk_WorkflowStep ''reconcile_ledgers'' ''Reconcile sales/purchase ledgers with GST''
             ''verification'' [''Sales Ledger'', ''Purchase Ledger''] [''collect_gstr'']
             None (base_due + timedelta_days 7),
           mk_WorkflowStep ''variance_analysis'' ''Variance and anomaly analysis'' ''analysis''
             [] [''reconcile_ledgers''] None (base_due + timedelta_days 12),
           mk_WorkflowStep ''draft_report'' ''Draft GST Audit Report'' ''reporting''
             [] [''variance_analysis''] None (base_due + timedelta_days 18),
           mk_WorkflowStep ''partner_signoff'' ''Partner Sign-off'' ''signoff''
             [] [''draft_report''] None (base_due + timedelta_days 20) ])"

definition generic_workflow_template :: "datetime \<Rightarrow> pydict \<Rightarrow> WorkflowStep list" where
  "generic_workflow_template today client =
     [ mk_WorkflowStep ''kickoff'' ''Engagement kickoff & document request'' ''documents''
         [] [] None (today + timedelta_days 7),
       mk_WorkflowStep ''fieldwork'' ''Fieldwork and tests'' ''analysis''
         [] [''kickoff''] None (today + timedelta_days 14),
       mk_WorkflowStep ''draft'' ''Draft report'' ''reporting''
         [] [''fieldwork''] None (today + timedelta_days 20),
       mk_WorkflowStep ''signoff'' ''Final sign-off'' ''signoff''
         [] [''draft''] None (today + timedelta_days 22) ]"

definition build_workflow_for_client ::
  "(pyval \<Rightarrow> string) \<Rightarrow> datetime \<Rightarrow> pydict \<Rightarrow> error + Workflow" where
  "build_workflow_for_client render today client =
     (case py_lower (py_or (dict_get client ''client_type'') (PStr '''')) of
        Inl e \<Rightarrow> Inl e
      | Inr ctype \<Rightarrow>
          let steps = (if str_contains ''gst'' ctype
                       then gst_workflow_template render today client
                       else generic_workflow_template today client)
          in (case dict_item client ''_id'' of
               Inl e \<Rightarrow> Inl e
             | Inr i \<Rightarrow>
                 (case validate_str (dict_get_default client ''client_type'' (PStr '''')) of
                    Inl e \<Rightarrow> Inl e
                  | Inr ct \<Rightarrow>
                      (case validate_opt_str (dict_get client ''fiscal_year'') of
                         Inl e \<Rightarrow> Inl e
                       | Inr fy \<Rightarrow>
                           Inr \<lparr> client_id = py_str render i, client_type = ct,
                                 fiscal_year = fy, version = ''v1'', steps = steps \<rparr>))))"

section \<open>The document store\<close>

text \<open>
  The three collections the handlers read, each a list of dicts in storage order, and
  the queries of the driver: an equality filter \<^verbatim>\<open>{k: v}\<close> selects a document whose
  field \<^verbatim>\<open>k\<close> equals \<^verbatim>\<open>v\<close> or is an array with \<^verbatim>\<open>v\<close> among its elements;
  \<^verbatim>\<open>find_one\<close> returns the first such document, \<^verbatim>\<open>find\<close> all of them, and
  \<^verbatim>\<open>update_one\<close> with \<^verbatim>\<open>$set\<close> rewrites one field of the first. The record holds
  the collections under their names; how a handler reaches one of them through the
  handle \<^verbatim>\<open>db\<close> is part of the handler.
\<close>

record db =
  client :: "pydict list"
  document :: "pydict list"
  workflow :: "pydict list"

definition matches :: "string \<Rightarrow> pyval \<Rightarrow> pydict \<Rightarrow> bool" where
  "matches k v d =
     (case map_of d k of
        None \<Rightarrow> False
      | Some x \<Rightarrow> x = v \<or> (case x of PList xs \<Rightarrow> v \<in> set xs | _ \<Rightarrow> False))"

definition find_one :: "pydict list \<Rightarrow> string \<Rightarrow> pyval \<Rightarrow> pydict option" where
  "find_one coll k v = find (matches k v) coll"

definition find_all :: "pydict list \<Rightarrow> string \<Rightarrow> pyval \<Rightarrow> pydict list" where
  "find_all coll k v = filter (matches k v) coll"

fun update_one :: "pydict list \<Rightarrow> string \<Rightarrow> pyval \<Rightarrow> string \<Rightarrow> pyval \<Rightarrow> pydict list" where
  "update_one [] k v field x = []"
| "update_one (d # ds) k v field x =
     (if matches k v d then dict_set d field x # ds else d # update_one ds k v field x)"

text \<open>
  \<^verbatim>\<open>oid\<close>: \<^verbatim>\<open>ObjectId(id_str)\<close> takes a text of 24 characters that \<^verbatim>\<open>bytes.fromhex\<close>
  reads (pairs of hexadecimal digits, ASCII white space skipped between pairs); every
  other text is answered with HTTP 400.
\<close>

definition is_space :: "char \<Rightarrow> bool" where
  "is_space c = (c \<in> set [CHR 0x09, CHR 0x0A, CHR 0x0B, CHR 0x0C, CHR 0x0D, CHR '' ''])"

definition is_hex :: "char \<Rightarrow> bool" where
  "is_hex c = (c \<in> set ''0123456789abcdefABCDEF'')"

fun fromhex :: "string \<Rightarrow> string option" where
  "fromhex [] = Some []"
| "fromhex [c] = (if is_space c then Some [] else None)"
| "fromhex (c # d # cs) =
     (if is_space c then fromhex (d # cs)
      else if is_hex c \<and> is_hex d
           then map_option (\<lambda>r. lower_char c # lower_char d # r) (fromhex cs)
      else None)"

definition oid :: "string \<Rightarrow> error + ObjectId" where
  "oid id_str =
     (if length id_str = 24
      then (case fromhex id_str of None \<Rightarrow> Inl InvalidId | Some h \<Rightarrow> Inr h)
      else Inl InvalidId)"

text \<open>
  \<^verbatim>\<open>for s in v\<close>: a list yields its elements, a dict its keys, a string its characters;
  the other values are not iterable.
\<close>

definition py_iter :: "pyval \<Rightarrow> error + pyval list" where
  "py_iter v =
     (case v of
        PList xs \<Rightarrow> Inr xs
      | PDict d \<Rightarrow> Inr (map (\<lambda>kv. PStr (fst kv)) d)
      | PStr s \<Rightarrow> Inr (map (\<lambda>c. PStr [c]) s)
      | _ \<Rightarrow> Inl TypeError)"

section \<open>Step status update\<close>

text \<open>
  The loop of \<^verbatim>\<open>update_step_status\<close> over the steps: the first element whose
  \<^verbatim>\<open>"key"\<close> equals \<^verbatim>\<open>step_key\<close> has \<^verbatim>\<open>"status"\<close> and \<^verbatim>\<open>"updated_at"\<close> set in place,
  and the loop stops. The result is the flag \<^verbatim>\<open>updated\<close> with the elements as the loop
  leaves them. An element that is not a dict has no method \<^verbatim>\<open>get\<close>.
\<close>

fun update_loop ::
  "datetime \<Rightarrow> string \<Rightarrow> string \<Rightarrow> pyval list \<Rightarrow> error + (bool \<times> pyval list)" where
  "update_loop now step_key new_status [] = Inr (False, [])"
| "update_loop now step_key new_status (s # rest) =
     (case s of
        PDict d \<Rightarrow>
          if dict_get d ''key'' = PStr step_key
          then Inr (True,
                 PDict (dict_set (dict_set d ''status'' (PStr new_status))
                          ''updated_at'' (PDatetime now)) # rest)
          else (case update_loop now step_key new_status rest of
                  Inl e \<Rightarrow> Inl e
                | Inr (updated, rest') \<Rightarrow> Inr (updated, s # rest'))
      | _ \<Rightarrow> Inl AttributeError)"

text \<open>
  The handler, on the store: it returns its answer and the store it leaves. \<open>now\<close> is the
  one reading of the clock the loop makes. The dict the loop changes is an element of
  the list under \<^verbatim>\<open>"steps"\<close> (iterating a string or a dict yields strings only), so
  \<^verbatim>\<open>wf["steps"]\<close> in the final write is that list with the element changed.
\<close>

definition update_step_status ::
  "datetime \<Rightarrow> db \<Rightarrow> string \<Rightarrow> string \<Rightarrow> string \<Rightarrow> (error + unit) \<times> db" where
  "update_step_status now store workflow_id step_key body_status =
     (case oid workflow_id of
        Inl e \<Rightarrow> (Inl e, store)
      | Inr i \<Rightarrow>
          (case find_one (workflow store) ''_id'' (PObjectId i) of
             None \<Rightarrow> (Inl WorkflowNotFound, store)
           | Some wfl \<Rightarrow>
               (case py_iter (dict_get_default wfl ''steps'' (PList [])) of
                  Inl e \<Rightarrow> (Inl e, store)
                | Inr ss \<Rightarrow>
                    (case update_loop now step_key body_status ss of
                       Inl e \<Rightarrow> (Inl e, store)
                     | Inr (updated, ss') \<Rightarrow>
                         if \<not> updated then (Inl StepNotFound, store)
                         else (case dict_item wfl ''_id'' of
                                 Inl e \<Rightarrow> (Inl e, store)
                               | Inr wid \<Rightarrow>
                                   (Inr (),
                                    store\<lparr>workflow :=
                                      update_one (workflow store) ''_id'' wid
                                        ''steps'' (PList ss')\<rparr>))))))"

section \<open>Predictive client tracker\<close>

text \<open>
  \<^verbatim>\<open>serialize\<close> and \<^verbatim>\<open>predictive_clients\<close>; \<open>predictive_loop\<close> is the loop of the handler
  over the list \<^verbatim>\<open>clients\<close>. The handler reads the clock once for every
  step whose \<^verbatim>\<open>due_date\<close> is a datetime: \<open>clock n\<close> is the reading number \<open>n\<close> of a
  request, and the loops carry the number of readings made so far with the sum
  \<^verbatim>\<open>overdue\<close>.
\<close>

definition serialize :: "(pyval \<Rightarrow> string) \<Rightarrow> pydict \<Rightarrow> pydict" where
  "serialize render doc =
     (if doc = [] then doc
      else (case map_of doc ''_id'' of
              None \<Rightarrow> doc
            | Some i \<Rightarrow> dict_set (AList.delete ''_id'' doc) ''id'' (PStr (py_str render i))))"

record risk_row =
  row_client :: pydict
  risk_score :: int
  risk_level :: string
  documents :: nat
  open_workflows :: nat

fun overdue_steps ::
  "(nat \<Rightarrow> datetime) \<Rightarrow> pyval list \<Rightarrow> nat \<times> int \<Rightarrow> error + (nat \<times> int)" where
  "overdue_steps clock [] (n, overdue) = Inr (n, overdue)"
| "overdue_steps clock (s # ss) (n, overdue) =
     (case s of
        PDict d \<Rightarrow>
          (let due = dict_get d ''due_date'';
               status = dict_get_default d ''status'' (PStr ''todo'')
           in (case due of
                 PDatetime t \<Rightarrow>
                   if t < clock n \<and> status \<noteq> PStr ''done''
                   then overdue_steps clock ss (Suc n, overdue + 15)
                   else overdue_steps clock ss (Suc n, overdue)
               | _ \<Rightarrow> overdue_steps clock ss (n, overdue)))
      | _ \<Rightarrow> Inl AttributeError)"

fun overdue_workflows ::
  "(nat \<Rightarrow> datetime) \<Rightarrow> pydict list \<Rightarrow> nat \<times> int \<Rightarrow> error + (nat \<times> int)" where
  "overdue_workflows clock [] acc = Inr acc"
| "overdue_workflows clock (wfl # wfs) acc =
     (case py_iter (dict_get_default wfl ''steps'' (PList [])) of
        Inl e \<Rightarrow> Inl e
      | Inr ss \<Rightarrow>
          (case overdue_steps clock ss acc of
             Inl e \<Rightarrow> Inl e
           | Inr acc' \<Rightarrow> overdue_workflows clock wfs acc'))"

definition risk_of :: "int \<Rightarrow> string" where
  "risk_of score = (if score \<ge> 85 then ''high'' else if score \<ge> 70 then ''medium'' else ''low'')"

fun predictive_loop ::
  "(pyval \<Rightarrow> string) \<Rightarrow> (nat \<Rightarrow> datetime) \<Rightarrow> db \<Rightarrow> pydict list \<Rightarrow> nat
     \<Rightarrow> error + risk_row list" where
  "predictive_loop render clock store [] n = Inr []"
| "predictive_loop render clock store (c # cs) n =
     (case dict_item c ''_id'' of
        Inl e \<Rightarrow> Inl e
      | Inr i \<Rightarrow>
          (let cid = py_str render i;
               docs = find_all (document store) ''client_id'' (PStr cid);
               wfs = find_all (workflow store) ''client_id'' (PStr cid);
               missing_docs_penalty = max 0 (5 - int (length docs)) * 10
           in (case overdue_workflows clock wfs (n, 0) of
                 Inl e \<Rightarrow> Inl e
               | Inr (n', overdue) \<Rightarrow>
                   (let score = min 100 (50 + missing_docs_penalty + overdue);
                        risk = risk_of score
                    in (case predictive_loop render clock store cs n' of
                          Inl e \<Rightarrow> Inl e
                        | Inr out \<Rightarrow>
                            Inr (\<lparr> row_client = serialize render c, risk_score = score,
                                   risk_level = risk, documents = length docs,
                                   open_workflows = length wfs \<rparr> # out))))))"

text \<open>
  \<^verbatim>\<open>db.client.find()\<close>, the first statement of \<^verbatim>\<open>predictive_clients\<close>. The handle \<^verbatim>\<open>db\<close>
  is a \<^verbatim>\<open>Database\<close> of the driver (\<^verbatim>\<open>test_database\<close> calls its
  \<^verbatim>\<open>list_collection_names\<close>). An attribute of a \<^verbatim>\<open>Database\<close> is the collection of that
  name only when the class has no attribute of the name, and it has one called
  \<^verbatim>\<open>client\<close>: the \<^verbatim>\<open>MongoClient\<close> the handle belongs to. So \<^verbatim>\<open>db.client\<close> is not the
  collection of the clients; \<^verbatim>\<open>find\<close> on a \<^verbatim>\<open>MongoClient\<close> is the database named "find",
  and calling a database raises \<^verbatim>\<open>TypeError\<close>, whatever the store holds.
  (\<^verbatim>\<open>db.document\<close> and \<^verbatim>\<open>db.workflow\<close> are the collections of these names.)
\<close>

definition db_client_find :: "db \<Rightarrow> error + pydict list" where
  "db_client_find store = Inl TypeError"

definition predictive_clients ::
  "(pyval \<Rightarrow> string) \<Rightarrow> (nat \<Rightarrow> datetime) \<Rightarrow> db \<Rightarrow> error + risk_row list" where
  "predictive_clients render clock store =
     (case db_client_find store of
        Inl e \<Rightarrow> Inl e
      | Inr clients \<Rightarrow> predictive_loop render clock store clients 0)"

section \<open>Notions the properties are stated with\<close>

subsection \<open>Client records\<close>

text \<open>
  A client document as \<^verbatim>\<open>Client\<close> of \<^verbatim>\<open>schemas.py\<close> types it and the store returns it:
  it has an \<^verbatim>\<open>_id\<close>, its \<^verbatim>\<open>client_type\<close> is a string when the key is there, its
  \<^verbatim>\<open>fiscal_year\<close> a string or \<^verbatim>\<open>None\<close>. \<open>client_type_text\<close> is the classification
  text, empty when the key is absent.
\<close>

definition client_shaped :: "pydict \<Rightarrow> bool" where
  "client_shaped c =
     (map_of c ''_id'' \<noteq> None
      \<and> (case map_of c ''client_type'' of
           None \<Rightarrow> True | Some (PStr s) \<Rightarrow> True | Some _ \<Rightarrow> False)
      \<and> (case map_of c ''fiscal_year'' of
           None \<Rightarrow> True | Some PNone \<Rightarrow> True | Some (PStr s) \<Rightarrow> True | Some _ \<Rightarrow> False))"

definition client_type_text :: "pydict \<Rightarrow> string" where
  "client_type_text c = (case map_of c ''client_type'' of Some (PStr s) \<Rightarrow> s | _ \<Rightarrow> [])"

text \<open>
  A text contains "gst" without regard to case: somewhere in it stand three characters
  in a row, \<^verbatim>\<open>g\<close> or \<^verbatim>\<open>G\<close>, then \<^verbatim>\<open>s\<close> or \<^verbatim>\<open>S\<close>, then \<^verbatim>\<open>t\<close> or \<^verbatim>\<open>T\<close>.
\<close>

definition contains_gst_ci :: "string \<Rightarrow> bool" where
  "contains_gst_ci s =
     (\<exists>p a b c q. s = p @ [a, b, c] @ q \<and> a \<in> {CHR ''g'', CHR ''G''}
        \<and> b \<in> {CHR ''s'', CHR ''S''} \<and> c \<in> {CHR ''t'', CHR ''T''})"

text \<open>
  The keys of the two template families, in order.
\<close>

definition gst_keys :: "string list" where
  "gst_keys =
     [''collect_gstr'', ''reconcile_ledgers'', ''variance_analysis'', ''draft_report'',
      ''partner_signoff'']"

definition generic_keys :: "string list" where
  "generic_keys = [''kickoff'', ''fieldwork'', ''draft'', ''signoff'']"

text \<open>
  Observations of a workflow: the due date of every step by key; whether every
  dependency of a step is the key of a step before it (\<open>seen\<close> holds the keys met so
  far); the description of the step \<^verbatim>\<open>collect_gstr\<close> in what the builder returns.
\<close>

definition due_dates :: "Workflow \<Rightarrow> (string \<times> datetime option) list" where
  "due_dates w = map (\<lambda>s. (key s, due_date s)) (steps w)"

fun deps_forward :: "string list \<Rightarrow> WorkflowStep list \<Rightarrow> bool" where
  "deps_forward seen [] = True"
| "deps_forward seen (s # ss) =
     (set (dependencies s) \<subseteq> set seen \<and> deps_forward (seen @ [key s]) ss)"

definition collect_gstr_description :: "error + Workflow \<Rightarrow> string option" where
  "collect_gstr_description r =
     (case r of
        Inl e \<Rightarrow> None
      | Inr w \<Rightarrow> (case find (\<lambda>s. key s = ''collect_gstr'') (steps w) of
                   None \<Rightarrow> None
                 | Some s \<Rightarrow> description s))"

subsection \<open>Stored workflows\<close>

text \<open>
  What the update loop writes into a matching step, and the steps the loop passes on its
  way: dicts whose \<^verbatim>\<open>"key"\<close> is not the key looked for.
\<close>

definition mark_step :: "datetime \<Rightarrow> string \<Rightarrow> pydict \<Rightarrow> pydict" where
  "mark_step now new_status d =
     dict_set (dict_set d ''status'' (PStr new_status)) ''updated_at'' (PDatetime now)"

definition other_steps :: "string \<Rightarrow> pyval list \<Rightarrow> bool" where
  "other_steps k ss = (\<forall>x\<in>set ss. \<exists>d. x = PDict d \<and> dict_get d ''key'' \<noteq> PStr k)"

text \<open>
  The risk rule in the words of the specification. A step is overdue at \<open>now\<close> when
  its \<^verbatim>\<open>due_date\<close> is an instant before \<open>now\<close> and its status (\<^verbatim>\<open>"todo"\<close> when none
  is stored) is not \<^verbatim>\<open>"done"\<close>. The documents and workflows of a client are those whose
  \<^verbatim>\<open>client_id\<close> is the text of the client's \<^verbatim>\<open>_id\<close>. The score is
  \<open>min(100, 50 + missing_docs_penalty + overdue_penalty)\<close>, the level \<^verbatim>\<open>high\<close> from 85,
  \<^verbatim>\<open>medium\<close> from 70, else \<^verbatim>\<open>low\<close>. A store is well formed for the tracker when every
  client has an \<^verbatim>\<open>_id\<close> and every workflow holds a list of step dicts (or no steps).
\<close>

definition is_overdue :: "datetime \<Rightarrow> pyval \<Rightarrow> bool" where
  "is_overdue now s =
     (case s of
        PDict d \<Rightarrow>
          (case dict_get d ''due_date'' of
             PDatetime t \<Rightarrow> t < now \<and> dict_get_default d ''status'' (PStr ''todo'') \<noteq> PStr ''done''
           | _ \<Rightarrow> False)
      | _ \<Rightarrow> False)"

definition workflow_steps :: "pydict \<Rightarrow> pyval list" where
  "workflow_steps w = (case dict_get_default w ''steps'' (PList []) of PList ss \<Rightarrow> ss | _ \<Rightarrow> [])"

definition stored_well :: "db \<Rightarrow> bool" where
  "stored_well store =
     ((\<forall>c\<in>set (client store). map_of c ''_id'' \<noteq> None)
      \<and> (\<forall>w\<in>set (workflow store).
            dict_get_default w ''steps'' (PList []) = PList (workflow_steps w)
            \<and> (\<forall>x\<in>set (workflow_steps w). \<exists>d. x = PDict d)))"

definition client_documents :: "(pyval \<Rightarrow> string) \<Rightarrow> db \<Rightarrow> pydict \<Rightarrow> pydict list" where
  "client_documents render store c =
     find_all (document store) ''client_id'' (PStr (py_str render (dict_get c ''_id'')))"

definition client_workflows :: "(pyval \<Rightarrow> string) \<Rightarrow> db \<Rightarrow> pydict \<Rightarrow> pydict list" where
  "client_workflows render store c =
     find_all (workflow store) ''client_id'' (PStr (py_str render (dict_get c ''_id'')))"

definition overdue_count :: "(pyval \<Rightarrow> string) \<Rightarrow> datetime \<Rightarrow> db \<Rightarrow> pydict \<Rightarrow> nat" where
  "overdue_count render now store c =
     length (filter (is_overdue now) (concat (map workflow_steps (client_workflows render store c))))"

definition spec_risk_score :: "nat \<Rightarrow> nat \<Rightarrow> int" where
  "spec_risk_score document_count overdue_steps_count =
     min 100 (50 + max 0 (5 - int document_count) * 10 + 15 * int overdue_steps_count)"

definition spec_risk_level :: "int \<Rightarrow> string" where
  "spec_risk_level score =
     (if score \<ge> 85 then ''high'' else if 70 \<le> score \<and> score < 85 then ''medium'' else ''low'')"

definition expected_row :: "(pyval \<Rightarrow> string) \<Rightarrow> datetime \<Rightarrow> db \<Rightarrow> pydict \<Rightarrow> risk_row" where
  "expected_row render now store c =
     (let score = spec_risk_score (length (client_documents render store c))
                    (overdue_count render now store c)
      in \<lparr> row_client = serialize render c, risk_score = score,
           risk_level = spec_risk_level score,
           documents = length (client_documents render store c),
           open_workflows = length (client_workflows render store c) \<rparr>)"

subsection \<open>A small store\<close>

text \<open>
  The client of the specification's examples (\<^verbatim>\<open>client_type\<close> "GST", \<^verbatim>\<open>fiscal_year\<close>
  "FY 2024-25"), the same client with an empty \<^verbatim>\<open>fiscal_year\<close>, and a store with this
  client, two of its documents and one of its workflows, with a step due 2024-01-27 and
  a step due 2024-02-02.
\<close>

definition example_gst_client :: pydict where
  "example_gst_client =
     [(''_id'', PObjectId ''65f0a1b2c3d4e5f6a7b8c9d0''), (''client_type'', PStr ''GST''),
      (''fiscal_year'', PStr ''FY 2024-25'')]"

definition empty_fy_client :: pydict where
  "empty_fy_client =
     [(''_id'', PObjectId ''65f0a1b2c3d4e5f6a7b8c9d0''), (''client_type'', PStr ''GST''),
      (''fiscal_year'', PStr [])]"

definition example_steps :: "pyval list" where
  "example_steps =
     [PDict [(''key'', PStr ''variance_analysis''), (''status'', PStr ''todo''),
             (''due_date'', PDatetime (mk_datetime 2024 1 27 0 0 0)),
             (''dependencies'', PList [PStr ''reconcile_ledgers''])],
      PDict [(''key'', PStr ''draft_report''), (''status'', PStr ''todo''),
             (''due_date'', PDatetime (mk_datetime 2024 2 2 0 0 0)),
             (''dependencies'', PList [PStr ''variance_analysis''])]]"

definition example_workflow :: pydict where
  "example_workflow =
     [(''_id'', PObjectId ''65f0a1b2c3d4e5f6a7b8c9d1''),
      (''client_id'', PStr ''65f0a1b2c3d4e5f6a7b8c9d0''), (''client_type'', PStr ''GST''),
      (''fiscal_year'', PStr ''FY 2024-25''), (''version'', PStr ''v1''),
      (''steps'', PList example_steps)]"

definition example_store :: db where
  "example_store =
     \<lparr> client = [example_gst_client],
       document =
         [[(''_id'', PObjectId ''65f0a1b2c3d4e5f6a7b8c9d2''),
           (''client_id'', PStr ''65f0a1b2c3d4e5f6a7b8c9d0''), (''name'', PStr ''GSTR-1'')],
          [(''_id'', PObjectId ''65f0a1b2c3d4e5f6a7b8c9d3''),
           (''client_id'', PStr ''65f0a1b2c3d4e5f6a7b8c9d0''), (''name'', PStr ''GSTR-3B'')]],
       workflow = [example_workflow] \<rparr>"

section \<open>Properties of the string tests\<close>

text \<open>
  \<^verbatim>\<open>sub in s\<close> is the contiguous occurrence of \<^verbatim>\<open>sub\<close>, and the test of the source, on
  the lower-cased text, is the test for "gst" without regard to case.
\<close>

lemma str_contains_iff: "str_contains sub s \<longleftrightarrow> (\<exists>p q. s = p @ sub @ q)"
proof (induction s)
  case Nil
  then show ?case by auto
next
  case (Cons c cs)
  show ?case
  proof
    assume "str_contains sub (c # cs)"
    then consider "prefix sub (c # cs)" | "str_contains sub cs" by auto
    then show "\<exists>p q. c # cs = p @ sub @ q"
    proof cases
      case 1
      then obtain q where "c # cs = sub @ q" by (auto simp: prefix_def)
      then have "c # cs = [] @ sub @ q" by simp
      then show ?thesis by blast
    next
      case 2
      then obtain p q where "cs = p @ sub @ q" using Cons.IH by blast
      then have "c # cs = (c # p) @ sub @ q" by simp
      then show ?thesis by blast
    qed
  next
    assume "\<exists>p q. c # cs = p @ sub @ q"
    then obtain p q where pq: "c # cs = p @ sub @ q" by blast
    show "str_contains sub (c # cs)"
    proof (cases p)
      case Nil
      then have "prefix sub (c # cs)" using pq by (auto simp: prefix_def)
      then show ?thesis by simp
    next
      case (Cons x p')
      then have "cs = p' @ sub @ q" using pq by simp
      then have "str_contains sub cs" using Cons.IH by blast
      then show ?thesis by simp
    qed
  qed
qed

lemma of_char_lower:
  "(of_char (lower_char c) :: nat) =
     (if 65 \<le> (of_char c :: nat) \<and> (of_char c :: nat) \<le> 90 then of_char c + 32
      else of_char c)"
  by (simp add: lower_char_def Let_def)

lemma lower_char_eq_iff:
  assumes "(of_char x :: nat) = n" and "97 \<le> n" and "n \<le> 122"
    and "(of_char y :: nat) = n - 32"
  shows "lower_char c = x \<longleftrightarrow> c = x \<or> c = y"
proof -
  have "lower_char c = x \<longleftrightarrow> (of_char (lower_char c) :: nat) = of_char x"
    by (simp only: of_char_eq_iff)
  also have "\<dots> \<longleftrightarrow> (of_char c :: nat) = of_char x \<or> (of_char c :: nat) = of_char y"
    unfolding of_char_lower using assms by auto
  also have "\<dots> \<longleftrightarrow> c = x \<or> c = y"
    by (simp only: of_char_eq_iff)
  finally show ?thesis .
qed

lemma lower_char_g: "lower_char c = CHR ''g'' \<longleftrightarrow> c = CHR ''g'' \<or> c = CHR ''G''"
  by (rule lower_char_eq_iff [where n = 103]) simp_all

lemma lower_char_s: "lower_char c = CHR ''s'' \<longleftrightarrow> c = CHR ''s'' \<or> c = CHR ''S''"
  by (rule lower_char_eq_iff [where n = 115]) simp_all

lemma lower_char_t: "lower_char c = CHR ''t'' \<longleftrightarrow> c = CHR ''t'' \<or> c = CHR ''T''"
  by (rule lower_char_eq_iff [where n = 116]) simp_all

lemma gst_in_lower: "str_contains ''gst'' (lower s) \<longleftrightarrow> contains_gst_ci s"
proof
  assume "str_contains ''gst'' (lower s)"
  then obtain p q where "map lower_char s = p @ ''gst'' @ q"
    by (auto simp: str_contains_iff lower_def)
  then obtain us vs where s: "s = us @ vs" and vs: "map lower_char vs = ''gst'' @ q"
    by (auto simp: map_eq_append_conv)
  from vs obtain a b c r where r: "vs = a # b # c # r"
    and "lower_char a = CHR ''g''" "lower_char b = CHR ''s''" "lower_char c = CHR ''t''"
    by (auto simp: map_eq_Cons_conv)
  then have "a \<in> {CHR ''g'', CHR ''G''}" "b \<in> {CHR ''s'', CHR ''S''}"
    "c \<in> {CHR ''t'', CHR ''T''}"
    by (simp_all add: lower_char_g lower_char_s lower_char_t)
  moreover have "s = us @ [a, b, c] @ r" using s r by simp
  ultimately show "contains_gst_ci s" unfolding contains_gst_ci_def by blast
next
  assume "contains_gst_ci s"
  then obtain p a b c q where s: "s = p @ [a, b, c] @ q"
    and "a \<in> {CHR ''g'', CHR ''G''}" "b \<in> {CHR ''s'', CHR ''S''}"
    "c \<in> {CHR ''t'', CHR ''T''}"
    unfolding contains_gst_ci_def by blast
  then have "lower_char a = CHR ''g''" "lower_char b = CHR ''s''" "lower_char c = CHR ''t''"
    by (simp_all add: lower_char_g lower_char_s lower_char_t)
  then have "lower s = map lower_char p @ ''gst'' @ map lower_char q"
    using s by (simp add: lower_def)
  then show "str_contains ''gst'' (lower s)"
    unfolding str_contains_iff by blast
qed

lemma not_gst_empty: "\<not> contains_gst_ci []"
  by (simp add: contains_gst_ci_def)

section \<open>Properties of the workflow builder\<close>

text \<open>
  \<^verbatim>\<open>build_workflow_for_client\<close> returns a workflow for exactly the client-shaped dicts,
  and this is the workflow. A \<^verbatim>\<open>client_type\<close> stored as \<^verbatim>\<open>None\<close> passes the
  classification (\<^verbatim>\<open>or ""\<close>) and is then refused by the \<^verbatim>\<open>str\<close> field of \<^verbatim>\<open>Workflow\<close>.
\<close>

lemma build_total:
  assumes "client_shaped c"
  shows "build_workflow_for_client render today c =
     Inr \<lparr> client_id = py_str render (the (map_of c ''_id'')),
           client_type = client_type_text c,
           fiscal_year = (case map_of c ''fiscal_year'' of Some (PStr s) \<Rightarrow> Some s | _ \<Rightarrow> None),
           version = ''v1'',
           steps = (if contains_gst_ci (client_type_text c)
                    then gst_workflow_template render today c
                    else generic_workflow_template today c) \<rparr>"
  using assms
  by (auto simp: build_workflow_for_client_def client_shaped_def client_type_text_def
      dict_get_def dict_get_default_def dict_item_def py_or_def py_lower_def validate_str_def
      validate_opt_str_def gst_in_lower [symmetric] lower_def
      split: option.splits pyval.splits)

lemma build_shaped:
  assumes "build_workflow_for_client render today c = Inr w"
  shows "client_shaped c"
  using assms
  by (auto simp: build_workflow_for_client_def client_shaped_def
      dict_get_def dict_get_default_def dict_item_def py_or_def py_lower_def validate_str_def
      validate_opt_str_def Let_def
      split: option.splits pyval.splits sum.splits if_splits)

lemma build_Inr:
  assumes "build_workflow_for_client render today c = Inr w"
  shows "w = \<lparr> client_id = py_str render (the (map_of c ''_id'')),
           client_type = client_type_text c,
           fiscal_year = (case map_of c ''fiscal_year'' of Some (PStr s) \<Rightarrow> Some s | _ \<Rightarrow> None),
           version = ''v1'',
           steps = (if contains_gst_ci (client_type_text c)
                    then gst_workflow_template render today c
                    else generic_workflow_template today c) \<rparr>"
  using build_total [OF build_shaped [OF assms], of render today] assms by simp

lemma build_returns_iff:
  "(\<exists>w. build_workflow_for_client render today c = Inr w) \<longleftrightarrow> client_shaped c"
  using build_total build_shaped by blast

lemma build_null_client_type:
  assumes "map_of c ''client_type'' = Some PNone" and "map_of c ''_id'' = Some i"
  shows "build_workflow_for_client render today c = Inl ValidationError"
  using assms
  by (simp add: build_workflow_for_client_def dict_get_def dict_get_default_def dict_item_def
      py_or_def py_lower_def validate_str_def lower_def)

lemma gst_template_keys: "map key (gst_workflow_template render today c) = gst_keys"
  by (simp add: gst_workflow_template_def mk_WorkflowStep_def gst_keys_def Let_def)

lemma generic_template_keys: "map key (generic_workflow_template today c) = generic_keys"
  by (simp add: generic_workflow_template_def mk_WorkflowStep_def generic_keys_def)

lemma gst_template_due:
  "map (\<lambda>s. (key s, due_date s)) (gst_workflow_template render today c) =
     [(''collect_gstr'', Some (today + timedelta_days 14)),
      (''reconcile_ledgers'', Some (today + timedelta_days 14 + timedelta_days 7)),
      (''variance_analysis'', Some (today + timedelta_days 14 + timedelta_days 12)),
      (''draft_report'', Some (today + timedelta_days 14 + timedelta_days 18)),
      (''partner_signoff'', Some (today + timedelta_days 14 + timedelta_days 20))]"
  by (simp add: gst_workflow_template_def mk_WorkflowStep_def Let_def)

lemma generic_template_due:
  "map (\<lambda>s. (key s, due_date s)) (generic_workflow_template today c) =
     [(''kickoff'', Some (today + timedelta_days 7)),
      (''fieldwork'', Some (today + timedelta_days 14)),
      (''draft'', Some (today + timedelta_days 20)),
      (''signoff'', Some (today + timedelta_days 22))]"
  by (simp add: generic_workflow_template_def mk_WorkflowStep_def)

lemma date_2024_01_15: "mk_datetime 2024 1 1 0 0 0 + timedelta_days 14 = mk_datetime 2024 1 15 0 0 0"
  by (simp add: mk_datetime_def ymd2ord_def days_before_year_def days_before_month_def
      days_in_month_def is_leap_def timedelta_days_def)

lemma date_2024_02_04:
  "mk_datetime 2024 1 15 0 0 0 + timedelta_days 20 = mk_datetime 2024 2 4 0 0 0"
  by (simp add: mk_datetime_def ymd2ord_def days_before_year_def days_before_month_def
      days_in_month_def is_leap_def timedelta_days_def)

lemma deps_forward_index:
  assumes "deps_forward seen ss" and "i < length ss" and "k \<in> set (dependencies (ss ! i))"
  shows "k \<in> set seen \<or> (\<exists>j<i. key (ss ! j) = k)"
  using assms
proof (induction ss arbitrary: seen i)
  case Nil
  then show ?case by simp
next
  case (Cons s ss)
  show ?case
  proof (cases i)
    case 0
    then show ?thesis using Cons.prems by auto
  next
    case (Suc i')
    then have "k \<in> set (seen @ [key s]) \<or> (\<exists>j<i'. key (ss ! j) = k)"
      using Cons.IH [of "seen @ [key s]" i'] Cons.prems by simp
    then show ?thesis
    proof
      assume "k \<in> set (seen @ [key s])"
      then consider "k \<in> set seen" | "key ((s # ss) ! 0) = k" by auto
      then show ?thesis using Suc by cases auto
    next
      assume "\<exists>j<i'. key (ss ! j) = k"
      then obtain j where "j < i'" "key (ss ! j) = k" by blast
      then have "Suc j < i \<and> key ((s # ss) ! Suc j) = k" using Suc by simp
      then show ?thesis by blast
    qed
  qed
qed

lemma gst_template_deps: "deps_forward [] (gst_workflow_template render today c)"
  by (simp add: gst_workflow_template_def mk_WorkflowStep_def Let_def)

lemma generic_template_deps: "deps_forward [] (generic_workflow_template today c)"
  by (simp add: generic_workflow_template_def mk_WorkflowStep_def)

lemma gst_template_status: "\<forall>s\<in>set (gst_workflow_template render today c). status s = ''todo''"
  by (simp add: gst_workflow_template_def mk_WorkflowStep_def Let_def)

lemma generic_template_status: "\<forall>s\<in>set (generic_workflow_template today c). status s = ''todo''"
  by (simp add: generic_workflow_template_def mk_WorkflowStep_def)

lemma gst_template_description:
  "find (\<lambda>s. key s = ''collect_gstr'') (gst_workflow_template render today c)
     = Some (mk_WorkflowStep ''collect_gstr'' ''Collect GSTR-1, GSTR-3B, GSTR-2B'' ''documents''
             [''GSTR-1'', ''GSTR-3B'', ''GSTR-2B''] []
             (Some (''Collect GST returns for ''
                @ py_str render (py_or (dict_get c ''fiscal_year'') (PStr ''Current FY''))))
             (today + timedelta_days 14))"
  by (simp add: gst_workflow_template_def mk_WorkflowStep_def Let_def)

lemma example_client_shaped: "client_shaped example_gst_client"
  by (simp add: example_gst_client_def client_shaped_def)

lemma example_client_gst: "contains_gst_ci (client_type_text example_gst_client)"
proof -
  have "str_contains ''gst'' (lower ''GST'')" by code_simp
  then show ?thesis
    by (simp add: example_gst_client_def client_type_text_def gst_in_lower)
qed

lemma example_client_builds:
  "\<exists>w. build_workflow_for_client render today example_gst_client = Inr w"
  using build_total [OF example_client_shaped] by blast

lemma empty_fy_client_builds:
  "collect_gstr_description
     (build_workflow_for_client (\<lambda>v. []) (mk_datetime 2024 1 1 0 0 0) empty_fy_client)
   = Some ''Collect GST returns for Current FY''"
proof -
  have shaped: "client_shaped empty_fy_client"
    by (simp add: empty_fy_client_def client_shaped_def)
  have "str_contains ''gst'' (lower ''GST'')" by code_simp
  then have gst: "contains_gst_ci (client_type_text empty_fy_client)"
    by (simp add: empty_fy_client_def client_type_text_def gst_in_lower)
  show ?thesis
    unfolding build_total [OF shaped]
    by (simp add: collect_gstr_description_def gst gst_template_description mk_WorkflowStep_def)
      (simp add: empty_fy_client_def dict_get_def py_or_def py_str_def)
qed

text \<open>
  Claim C1. For every client record (a client-shaped dict), \<^verbatim>\<open>build_workflow_for_client\<close>
  returns a workflow. Its steps are the five GST steps \<^verbatim>\<open>collect_gstr\<close>,
  \<^verbatim>\<open>reconcile_ledgers\<close>, \<^verbatim>\<open>variance_analysis\<close>, \<^verbatim>\<open>draft_report\<close>, \<^verbatim>\<open>partner_signoff\<close>, in
  this order, exactly when the client_type contains "gst" without regard to case, which
  is when its lower-cased text contains \<^verbatim>\<open>"gst"\<close>; otherwise they are the four Generic
  steps \<^verbatim>\<open>kickoff\<close>, \<^verbatim>\<open>fieldwork\<close>, \<^verbatim>\<open>draft\<close>, \<^verbatim>\<open>signoff\<close>, in this order. A client whose
  client_type is missing or empty gets the Generic steps.
\<close>

theorem template_selection:
  assumes "client_shaped c"
  shows "\<exists>w. build_workflow_for_client render today c = Inr w
           \<and> map key (steps w) =
               (if contains_gst_ci (client_type_text c) then gst_keys else generic_keys)
           \<and> contains_gst_ci (client_type_text c)
               = str_contains ''gst'' (lower (client_type_text c))
           \<and> (map_of c ''client_type'' = None \<or> map_of c ''client_type'' = Some (PStr [])
                \<longrightarrow> map key (steps w) = generic_keys)"
proof -
  have "client_type_text c = []"
    if "map_of c ''client_type'' = None \<or> map_of c ''client_type'' = Some (PStr [])"
    using that by (auto simp: client_type_text_def)
  then show ?thesis
    by (auto simp: build_total [OF assms] gst_template_keys generic_template_keys
        gst_in_lower not_gst_empty)
qed

theorem template_selection_witness:
  "client_shaped [(''_id'', PObjectId ''65f0a1b2c3d4e5f6a7b8c9d0''),
                  (''client_type'', PStr ''GST''), (''fiscal_year'', PStr ''FY 2024-25'')]
   \<and> (\<exists>w. build_workflow_for_client (\<lambda>v. []) (mk_datetime 2024 1 1 0 0 0)
             [(''_id'', PObjectId ''65f0a1b2c3d4e5f6a7b8c9d0''),
              (''client_type'', PStr ''GST''), (''fiscal_year'', PStr ''FY 2024-25'')] = Inr w
          \<and> map key (steps w) = gst_keys)"
proof -
  let ?c = "[(''_id'', PObjectId ''65f0a1b2c3d4e5f6a7b8c9d0''),
             (''client_type'', PStr ''GST''), (''fiscal_year'', PStr ''FY 2024-25'')]"
  have shaped: "client_shaped ?c"
    by (simp add: client_shaped_def)
  have "str_contains ''gst'' (lower ''GST'')"
    by code_simp
  then have gst: "contains_gst_ci (client_type_text ?c)"
    by (simp add: client_type_text_def gst_in_lower)
  show ?thesis
    using template_selection [OF shaped, of "\<lambda>v. []" "mk_datetime 2024 1 1 0 0 0"] shaped gst
    by auto
qed

text \<open>
  Claim C2. In every workflow the builder returns the due dates follow the schedule of
  the template: for the GST family, with the anchor \<open>B = today + 14 days\<close>, the steps are
  due at \<open>B\<close>, \<open>B + 7\<close>, \<open>B + 12\<close>, \<open>B + 18\<close> and \<open>B + 20\<close> days; for the Generic family
  at \<open>today + 7\<close>, \<open>+ 14\<close>, \<open>+ 20\<close> and \<open>+ 22\<close> days. The due dates do not decrease along
  the list, and for the reference time 2024-01-01T00:00:00 a GST client's
  \<^verbatim>\<open>collect_gstr\<close> is due 2024-01-15T00:00:00 and its \<^verbatim>\<open>partner_signoff\<close>
  2024-02-04T00:00:00.
\<close>

theorem due_date_schedule:
  assumes "build_workflow_for_client render today c = Inr w"
  shows "due_dates w =
           (if contains_gst_ci (client_type_text c)
            then [(''collect_gstr'', Some (today + timedelta_days 14)),
                  (''reconcile_ledgers'', Some (today + timedelta_days 14 + timedelta_days 7)),
                  (''variance_analysis'', Some (today + timedelta_days 14 + timedelta_days 12)),
                  (''draft_report'', Some (today + timedelta_days 14 + timedelta_days 18)),
                  (''partner_signoff'', Some (today + timedelta_days 14 + timedelta_days 20))]
            else [(''kickoff'', Some (today + timedelta_days 7)),
                  (''fieldwork'', Some (today + timedelta_days 14)),
                  (''draft'', Some (today + timedelta_days 20)),
                  (''signoff'', Some (today + timedelta_days 22))])
         \<and> (\<exists>ds. map snd (due_dates w) = map Some ds \<and> sorted ds)
         \<and> (today = mk_datetime 2024 1 1 0 0 0 \<and> contains_gst_ci (client_type_text c)
              \<longrightarrow> map_of (due_dates w) ''collect_gstr'' = Some (Some (mk_datetime 2024 1 15 0 0 0))
                \<and> map_of (due_dates w) ''partner_signoff'' = Some (Some (mk_datetime 2024 2 4 0 0 0)))"
proof (cases "contains_gst_ci (client_type_text c)")
  case True
  then have dd: "due_dates w =
      [(''collect_gstr'', Some (today + timedelta_days 14)),
       (''reconcile_ledgers'', Some (today + timedelta_days 14 + timedelta_days 7)),
       (''variance_analysis'', Some (today + timedelta_days 14 + timedelta_days 12)),
       (''draft_report'', Some (today + timedelta_days 14 + timedelta_days 18)),
       (''partner_signoff'', Some (today + timedelta_days 14 + timedelta_days 20))]"
    unfolding due_dates_def by (subst build_Inr [OF assms]) (simp add: gst_template_due)
  have "map snd (due_dates w) =
      map Some [today + timedelta_days 14, today + timedelta_days 14 + timedelta_days 7,
        today + timedelta_days 14 + timedelta_days 12, today + timedelta_days 14 + timedelta_days 18,
        today + timedelta_days 14 + timedelta_days 20]
      \<and> sorted [today + timedelta_days 14, today + timedelta_days 14 + timedelta_days 7,
        today + timedelta_days 14 + timedelta_days 12, today + timedelta_days 14 + timedelta_days 18,
        today + timedelta_days 14 + timedelta_days 20]"
    by (simp add: dd timedelta_days_def)
  then have sorted_dues: "\<exists>ds. map snd (due_dates w) = map Some ds \<and> sorted ds" by blast
  have example: "map_of (due_dates w) ''collect_gstr'' = Some (Some (mk_datetime 2024 1 15 0 0 0))
      \<and> map_of (due_dates w) ''partner_signoff'' = Some (Some (mk_datetime 2024 2 4 0 0 0))"
    if "today = mk_datetime 2024 1 1 0 0 0"
    using that by (simp add: dd date_2024_01_15 date_2024_02_04)
  have schedule: "due_dates w =
           (if contains_gst_ci (client_type_text c)
            then [(''collect_gstr'', Some (today + timedelta_days 14)),
                  (''reconcile_ledgers'', Some (today + timedelta_days 14 + timedelta_days 7)),
                  (''variance_analysis'', Some (today + timedelta_days 14 + timedelta_days 12)),
                  (''draft_report'', Some (today + timedelta_days 14 + timedelta_days 18)),
                  (''partner_signoff'', Some (today + timedelta_days 14 + timedelta_days 20))]
            else [(''kickoff'', Some (today + timedelta_days 7)),
                  (''fieldwork'', Some (today + timedelta_days 14)),
                  (''draft'', Some (today + timedelta_days 20)),
                  (''signoff'', Some (today + timedelta_days 22))])"
    using True by (simp only: dd if_True)
  show ?thesis using schedule sorted_dues example by blast
next
  case False
  then have dd: "due_dates w =
      [(''kickoff'', Some (today + timedelta_days 7)),
       (''fieldwork'', Some (today + timedelta_days 14)),
       (''draft'', Some (today + timedelta_days 20)),
       (''signoff'', Some (today + timedelta_days 22))]"
    unfolding due_dates_def by (subst build_Inr [OF assms]) (simp add: generic_template_due)
  have "map snd (due_dates w) =
      map Some [today + timedelta_days 7, today + timedelta_days 14, today + timedelta_days 20,
        today + timedelta_days 22]
      \<and> sorted [today + timedelta_days 7, today + timedelta_days 14, today + timedelta_days 20,
        today + timedelta_days 22]"
    by (simp add: dd timedelta_days_def)
  then have sorted_dues: "\<exists>ds. map snd (due_dates w) = map Some ds \<and> sorted ds" by blast
  have schedule: "due_dates w =
           (if contains_gst_ci (client_type_text c)
            then [(''collect_gstr'', Some (today + timedelta_days 14)),
                  (''reconcile_ledgers'', Some (today + timedelta_days 14 + timedelta_days 7)),
                  (''variance_analysis'', Some (today + timedelta_days 14 + timedelta_days 12)),
                  (''draft_report'', Some (today + timedelta_days 14 + timedelta_days 18)),
                  (''partner_signoff'', Some (today + timedelta_days 14 + timedelta_days 20))]
            else [(''kickoff'', Some (today + timedelta_days 7)),
                  (''fieldwork'', Some (today + timedelta_days 14)),
                  (''draft'', Some (today + timedelta_days 20)),
                  (''signoff'', Some (today + timedelta_days 22))])"
    using False by (simp only: dd if_False)
  show ?thesis using schedule sorted_dues False by blast
qed

theorem due_date_schedule_witness:
  "\<exists>w. build_workflow_for_client (\<lambda>v. []) (mk_datetime 2024 1 1 0 0 0) example_gst_client = Inr w
      \<and> map_of (due_dates w) ''collect_gstr'' = Some (Some (mk_datetime 2024 1 15 0 0 0))
      \<and> map_of (due_dates w) ''partner_signoff'' = Some (Some (mk_datetime 2024 2 4 0 0 0))"
proof -
  obtain w where w: "build_workflow_for_client (\<lambda>v. []) (mk_datetime 2024 1 1 0 0 0)
      example_gst_client = Inr w"
    using example_client_builds by blast
  from due_date_schedule [OF w] example_client_gst
  have "map_of (due_dates w) ''collect_gstr'' = Some (Some (mk_datetime 2024 1 15 0 0 0))
      \<and> map_of (due_dates w) ''partner_signoff'' = Some (Some (mk_datetime 2024 2 4 0 0 0))"
    by blast
  with w show ?thesis by blast
qed

text \<open>
  Claim C6. In every workflow the builder returns, of either family, every key in a
  step's \<^verbatim>\<open>dependencies\<close> is the key of a step that stands earlier in the same list:
  dependencies point backwards only, so they are acyclic and name sibling steps.
\<close>

theorem dependencies_forward_only:
  assumes "build_workflow_for_client render today c = Inr w"
  shows "\<forall>i<length (steps w). \<forall>k\<in>set (dependencies (steps w ! i)).
           \<exists>j<i. key (steps w ! j) = k"
proof -
  have "deps_forward [] (steps w)"
    by (subst build_Inr [OF assms]) (simp add: gst_template_deps generic_template_deps)
  then show ?thesis
    using deps_forward_index [of "[]" "steps w"] by auto
qed

theorem dependencies_forward_only_witness:
  "\<exists>w. build_workflow_for_client (\<lambda>v. []) (mk_datetime 2024 1 1 0 0 0) example_gst_client = Inr w
      \<and> dependencies (steps w ! 1) = [''collect_gstr'']
      \<and> (\<exists>j<1. key (steps w ! j) = ''collect_gstr'')"
proof -
  obtain w where w: "build_workflow_for_client (\<lambda>v. []) (mk_datetime 2024 1 1 0 0 0)
      example_gst_client = Inr w"
    using example_client_builds by blast
  have st: "steps w = gst_workflow_template (\<lambda>v. []) (mk_datetime 2024 1 1 0 0 0) example_gst_client"
    by (subst build_Inr [OF w]) (simp add: example_client_gst)
  have len: "1 < length (steps w)"
    by (simp add: st gst_workflow_template_def Let_def)
  have dep: "dependencies (steps w ! 1) = [''collect_gstr'']"
    by (simp add: st gst_workflow_template_def mk_WorkflowStep_def Let_def)
  from dependencies_forward_only [OF w] len dep
  have "\<exists>j<1. key (steps w ! j) = ''collect_gstr''"
    by auto
  with w dep show ?thesis by blast
qed

text \<open>
  Claim C7. Every workflow the builder returns has \<^verbatim>\<open>version\<close> "v1", every step at
  status "todo", and \<^verbatim>\<open>client_id\<close>, \<^verbatim>\<open>client_type\<close> and \<^verbatim>\<open>fiscal_year\<close> taken from the
  client record: the text of its \<^verbatim>\<open>_id\<close>, its \<^verbatim>\<open>client_type\<close> (empty when absent) and
  its \<^verbatim>\<open>fiscal_year\<close> (\<^verbatim>\<open>None\<close> when absent).
\<close>

theorem workflow_header:
  assumes "build_workflow_for_client render today c = Inr w"
  shows "version w = ''v1''
       \<and> (\<forall>s\<in>set (steps w). status s = ''todo'')
       \<and> (\<exists>i. dict_item c ''_id'' = Inr i \<and> client_id w = py_str render i)
       \<and> dict_get_default c ''client_type'' (PStr []) = PStr (client_type w)
       \<and> dict_get c ''fiscal_year'' = (case fiscal_year w of None \<Rightarrow> PNone | Some s \<Rightarrow> PStr s)"
proof -
  note w = build_Inr [OF assms]
  have shaped: "client_shaped c" by (rule build_shaped [OF assms])
  have "version w = ''v1''" by (subst w) simp
  moreover have "\<forall>s\<in>set (steps w). status s = ''todo''"
    by (subst w) (simp add: gst_template_status generic_template_status)
  moreover have "\<exists>i. dict_item c ''_id'' = Inr i \<and> client_id w = py_str render i"
    using shaped by (subst w) (auto simp: client_shaped_def dict_item_def)
  moreover have "dict_get_default c ''client_type'' (PStr []) = PStr (client_type w)"
    using shaped by (subst w)
      (auto simp: client_shaped_def dict_get_default_def client_type_text_def
        split: option.splits pyval.splits)
  moreover have "dict_get c ''fiscal_year'' = (case fiscal_year w of None \<Rightarrow> PNone | Some s \<Rightarrow> PStr s)"
    using shaped by (subst w)
      (auto simp: client_shaped_def dict_get_def split: option.splits pyval.splits)
  ultimately show ?thesis by blast
qed

theorem workflow_header_witness:
  "\<exists>w. build_workflow_for_client (\<lambda>v. []) (mk_datetime 2024 1 1 0 0 0) example_gst_client = Inr w
      \<and> version w = ''v1'' \<and> list_all (\<lambda>s. status s = ''todo'') (steps w)
      \<and> client_id w = ''65f0a1b2c3d4e5f6a7b8c9d0'' \<and> client_type w = ''GST''
      \<and> fiscal_year w = Some ''FY 2024-25''"
proof -
  obtain w where w: "build_workflow_for_client (\<lambda>v. []) (mk_datetime 2024 1 1 0 0 0)
      example_gst_client = Inr w"
    using example_client_builds by blast
  note h = workflow_header [OF w]
  have "version w = ''v1''" using h by blast
  moreover have "list_all (\<lambda>s. status s = ''todo'') (steps w)"
    using h by (simp add: list_all_iff)
  moreover have "client_id w = ''65f0a1b2c3d4e5f6a7b8c9d0''"
    using h by (auto simp: example_gst_client_def dict_item_def py_str_def)
  moreover have "client_type w = ''GST''"
    using h by (auto simp: example_gst_client_def dict_get_default_def)
  moreover have "fiscal_year w = Some ''FY 2024-25''"
    using h by (auto simp: example_gst_client_def dict_get_def split: option.splits)
  ultimately show ?thesis using w by blast
qed

text \<open>
  Claim C8, as the code has it. In every GST-family workflow the description of
  \<^verbatim>\<open>collect_gstr\<close> is "Collect GST returns for " followed by the client's
  \<^verbatim>\<open>fiscal_year\<close> when that is present and not empty, and followed by the placeholder
  "Current FY" otherwise: when \<^verbatim>\<open>fiscal_year\<close> is absent, \<^verbatim>\<open>None\<close> or the empty string.
\<close>

theorem collect_gstr_description_rule:
  assumes "build_workflow_for_client render today c = Inr w"
    and "contains_gst_ci (client_type_text c)"
  shows "collect_gstr_description (Inr w) =
           Some (''Collect GST returns for ''
                   @ (case dict_get c ''fiscal_year'' of
                        PStr s \<Rightarrow> if s = [] then ''Current FY'' else s
                      | _ \<Rightarrow> ''Current FY''))"
proof -
  have shaped: "client_shaped c" by (rule build_shaped [OF assms(1)])
  have st: "steps w = gst_workflow_template render today c"
    by (subst build_Inr [OF assms(1)]) (simp add: assms(2))
  have "py_str render (py_or (dict_get c ''fiscal_year'') (PStr ''Current FY''))
      = (case dict_get c ''fiscal_year'' of
           PStr s \<Rightarrow> if s = [] then ''Current FY'' else s
         | _ \<Rightarrow> ''Current FY'')"
    using shaped
    by (auto simp: client_shaped_def dict_get_def py_or_def py_str_def
        split: option.splits pyval.splits)
  then show ?thesis
    by (simp add: collect_gstr_description_def st gst_template_description mk_WorkflowStep_def)
qed

theorem collect_gstr_description_rule_witness:
  "\<exists>w. build_workflow_for_client (\<lambda>v. []) (mk_datetime 2024 1 1 0 0 0) example_gst_client = Inr w
      \<and> contains_gst_ci (client_type_text example_gst_client)
      \<and> collect_gstr_description (Inr w) = Some ''Collect GST returns for FY 2024-25''"
proof -
  obtain w where w: "build_workflow_for_client (\<lambda>v. []) (mk_datetime 2024 1 1 0 0 0)
      example_gst_client = Inr w"
    using example_client_builds by blast
  have "collect_gstr_description (Inr w) = Some ''Collect GST returns for FY 2024-25''"
    using collect_gstr_description_rule [OF w example_client_gst]
    by (simp add: example_gst_client_def dict_get_def)
  with w example_client_gst show ?thesis by blast
qed

text \<open>
  The claim as written (the \<^verbatim>\<open>fiscal_year\<close> is interpolated whenever it is present)
  fails for a client whose \<^verbatim>\<open>fiscal_year\<close> is present and empty: the description ends in
  the placeholder, not in the empty value.
\<close>

theorem description_empty_fiscal_year_counterexample:
  "dict_item empty_fy_client ''fiscal_year'' = Inr (PStr [])
   \<and> collect_gstr_description
       (build_workflow_for_client (\<lambda>v. []) (mk_datetime 2024 1 1 0 0 0) empty_fy_client)
     = Some ''Collect GST returns for Current FY''
   \<and> collect_gstr_description
       (build_workflow_for_client (\<lambda>v. []) (mk_datetime 2024 1 1 0 0 0) empty_fy_client)
     \<noteq> Some (''Collect GST returns for '' @ [])"
  by (simp add: empty_fy_client_builds) (simp add: empty_fy_client_def dict_item_def)

section \<open>Properties of the step status update\<close>

text \<open>
  The loop on a list that holds a step of the key, and on one that holds none; the
  queries on a collection split at the first matching document; the handler on a store
  whose workflow has the step.
\<close>

lemma update_loop_found:
  assumes "other_steps k before" and "dict_get d ''key'' = PStr k"
  shows "update_loop now k s (before @ PDict d # after)
           = Inr (True, before @ PDict (mark_step now s d) # after)"
  using assms(1)
proof (induction before)
  case Nil
  then show ?case using assms(2) by (simp add: mark_step_def)
next
  case (Cons x xs)
  then obtain d' where "x = PDict d'" "dict_get d' ''key'' \<noteq> PStr k" "other_steps k xs"
    by (auto simp: other_steps_def)
  then show ?case using Cons.IH by simp
qed

lemma update_loop_not_found:
  assumes "other_steps k ss"
  shows "update_loop now k s ss = Inr (False, ss)"
  using assms
proof (induction ss)
  case Nil
  then show ?case by simp
next
  case (Cons x xs)
  then obtain d' where "x = PDict d'" "dict_get d' ''key'' \<noteq> PStr k" "other_steps k xs"
    by (auto simp: other_steps_def)
  then show ?case using Cons.IH by simp
qed

lemma update_loop_unchanged:
  "update_loop now k s ss = Inr (False, ss') \<Longrightarrow> ss' = ss"
proof (induction ss arbitrary: ss')
  case Nil
  then show ?case by simp
next
  case (Cons x xs)
  then show ?case
    by (auto split: pyval.splits if_splits sum.splits)
qed

lemma find_one_split:
  assumes "\<forall>x\<in>set pre. \<not> matches k v x" and "matches k v w"
  shows "find_one (pre @ w # post) k v = Some w"
  using assms by (induction pre) (auto simp: find_one_def)

lemma update_one_split:
  assumes "\<forall>x\<in>set pre. \<not> matches k v x" and "matches k v w"
  shows "update_one (pre @ w # post) k v f x = pre @ dict_set w f x # post"
  using assms by (induction pre) auto

lemma find_one_none:
  assumes "\<forall>x\<in>set coll. \<not> matches k v x"
  shows "find_one coll k v = None"
  using assms by (induction coll) (auto simp: find_one_def)

lemma matches_id: "map_of w ''_id'' = Some v \<Longrightarrow> matches ''_id'' v w"
  by (simp add: matches_def)

lemma update_step_status_found:
  assumes "oid wid = Inr i"
    and "workflow store = pre @ w # post"
    and "\<forall>x\<in>set pre. \<not> matches ''_id'' (PObjectId i) x"
    and "map_of w ''_id'' = Some (PObjectId i)"
    and "map_of w ''steps'' = Some (PList (before @ PDict d # after))"
    and "other_steps k before"
    and "dict_get d ''key'' = PStr k"
  shows "update_step_status now store wid k s =
           (Inr (), store\<lparr>workflow :=
              pre @ dict_set w ''steps'' (PList (before @ PDict (mark_step now s d) # after))
                # post\<rparr>)"
proof -
  have m: "matches ''_id'' (PObjectId i) w" using assms(4) by (rule matches_id)
  have f: "find_one (workflow store) ''_id'' (PObjectId i) = Some w"
    unfolding assms(2) using assms(3) m by (rule find_one_split)
  have it: "py_iter (dict_get_default w ''steps'' (PList [])) = Inr (before @ PDict d # after)"
    using assms(5) by (simp add: py_iter_def dict_get_default_def)
  have lp: "update_loop now k s (before @ PDict d # after)
      = Inr (True, before @ PDict (mark_step now s d) # after)"
    using assms(6,7) by (rule update_loop_found)
  have item: "dict_item w ''_id'' = Inr (PObjectId i)"
    using assms(4) by (simp add: dict_item_def)
  have up: "update_one (workflow store) ''_id'' (PObjectId i) ''steps'' x
      = pre @ dict_set w ''steps'' x # post" for x
    unfolding assms(2) using assms(3) m by (rule update_one_split)
  show ?thesis
    by (simp add: update_step_status_def assms(1) f it lp item up)
qed

lemma dict_set_other: "f \<noteq> k \<Longrightarrow> map_of (dict_set d k v) f = map_of d f"
  by (simp add: dict_set_def update_conv')

lemma dict_set_same: "map_of (dict_set d k v) k = Some v"
  by (simp add: dict_set_def update_conv')

lemma dict_set_keys: "map_of d k \<noteq> None \<Longrightarrow> map fst (dict_set d k v) = map fst d"
  by (auto simp: dict_set_def update_keys map_of_eq_None_iff)

lemma dict_set_twice: "dict_set (dict_set d k v) k v' = dict_set d k v'"
  by (simp add: dict_set_def)

lemma mark_step_twice: "mark_step now2 s (mark_step now s d) = mark_step now2 s d"
proof -
  have "map_of (dict_set (dict_set d ''status'' (PStr s)) ''updated_at'' (PDatetime now)) ''status''
      = Some (PStr s)"
    by (simp add: dict_set_other dict_set_same)
  then have "dict_set (dict_set (dict_set d ''status'' (PStr s)) ''updated_at'' (PDatetime now))
      ''status'' (PStr s) = dict_set (dict_set d ''status'' (PStr s)) ''updated_at'' (PDatetime now)"
    unfolding dict_set_def by (rule update_triv)
  then show ?thesis
    by (simp add: mark_step_def dict_set_twice)
qed

lemma mark_step_fields:
  "map_of (mark_step now s d) ''status'' = Some (PStr s)"
  "map_of (mark_step now s d) ''updated_at'' = Some (PDatetime now)"
  "f \<noteq> ''status'' \<Longrightarrow> f \<noteq> ''updated_at'' \<Longrightarrow> map_of (mark_step now s d) f = map_of d f"
  by (simp_all add: mark_step_def dict_set_other dict_set_same)

lemma mark_step_key: "dict_get (mark_step now s d) ''key'' = dict_get d ''key''"
  by (simp add: dict_get_def mark_step_fields)

lemma example_oid: "oid ''65f0a1b2c3d4e5f6a7b8c9d1'' = Inr ''65f0a1b2c3d4e5f6a7b8c9d1''"
  by code_simp

lemma example_oid_zero: "oid ''000000000000000000000000'' = Inr ''000000000000000000000000''"
  by code_simp

lemma example_store_workflow: "workflow example_store = [] @ example_workflow # []"
  by (simp add: example_store_def)

lemma example_workflow_id: "map_of example_workflow ''_id'' = Some (PObjectId ''65f0a1b2c3d4e5f6a7b8c9d1'')"
  by (simp add: example_workflow_def)

lemma example_workflow_steps:
  "map_of example_workflow ''steps'' =
     Some (PList ([PDict [(''key'', PStr ''variance_analysis''), (''status'', PStr ''todo''),
                     (''due_date'', PDatetime (mk_datetime 2024 1 27 0 0 0)),
                     (''dependencies'', PList [PStr ''reconcile_ledgers''])]]
            @ PDict [(''key'', PStr ''draft_report''), (''status'', PStr ''todo''),
                     (''due_date'', PDatetime (mk_datetime 2024 2 2 0 0 0)),
                     (''dependencies'', PList [PStr ''variance_analysis''])] # []))"
  by (simp add: example_workflow_def example_steps_def)

lemma example_before:
  "other_steps ''draft_report''
     [PDict [(''key'', PStr ''variance_analysis''), (''status'', PStr ''todo''),
             (''due_date'', PDatetime (mk_datetime 2024 1 27 0 0 0)),
             (''dependencies'', PList [PStr ''reconcile_ledgers''])]]"
  by (simp add: other_steps_def dict_get_def)

lemma example_step_key:
  "dict_get [(''key'', PStr ''draft_report''), (''status'', PStr ''todo''),
             (''due_date'', PDatetime (mk_datetime 2024 2 2 0 0 0)),
             (''dependencies'', PList [PStr ''variance_analysis''])] ''key'' = PStr ''draft_report''"
  by (simp add: dict_get_def)

lemma example_find: "find_one (workflow example_store) ''_id'' (PObjectId ''65f0a1b2c3d4e5f6a7b8c9d1'')
    = Some example_workflow"
  by (simp add: example_store_def find_one_def matches_def example_workflow_def)

lemma example_find_zero:
  "find_one (workflow example_store) ''_id'' (PObjectId ''000000000000000000000000'') = None"
  by (simp add: example_store_def find_one_def matches_def example_workflow_def)

lemma example_no_such_step: "other_steps ''nonexistent_key'' example_steps"
  by (simp add: other_steps_def example_steps_def dict_get_def)

text \<open>
  Claim C3. Let the workflow \<open>w\<close> of the given id hold a step \<open>d\<close> of key \<open>k\<close>, the
  first of this key in its list of steps. Then \<^verbatim>\<open>update_step_status\<close> succeeds, and the
  store it leaves differs from the old one in the document \<open>w\<close> alone: the new document
  has the same keys in the same order and the same value under every key but
  \<^verbatim>\<open>steps\<close>; its list of steps has the same steps in the same order but for \<open>d\<close>, and
  the new step agrees with \<open>d\<close> on every field other than \<^verbatim>\<open>status\<close> and
  \<^verbatim>\<open>updated_at\<close>, which are the new status and the time of the update. Applying the
  same status again (at the time \<open>now2\<close>) gives the store that applying it once at
  \<open>now2\<close> gives: the status stays, only \<^verbatim>\<open>updated_at\<close> moves.
\<close>

theorem update_changes_one_step:
  assumes "oid wid = Inr i"
    and "workflow store = pre @ w # post"
    and "\<forall>x\<in>set pre. \<not> matches ''_id'' (PObjectId i) x"
    and "map_of w ''_id'' = Some (PObjectId i)"
    and "map_of w ''steps'' = Some (PList (before @ PDict d # after))"
    and "other_steps k before"
    and "dict_get d ''key'' = PStr k"
  shows "\<exists>w' d'. update_step_status now store wid k s
             = (Inr (), store\<lparr>workflow := pre @ w' # post\<rparr>)
         \<and> map fst w' = map fst w
         \<and> (\<forall>f. f \<noteq> ''steps'' \<longrightarrow> map_of w' f = map_of w f)
         \<and> map_of w' ''steps'' = Some (PList (before @ PDict d' # after))
         \<and> (\<forall>f. f \<noteq> ''status'' \<and> f \<noteq> ''updated_at'' \<longrightarrow> map_of d' f = map_of d f)
         \<and> map_of d' ''status'' = Some (PStr s)
         \<and> map_of d' ''updated_at'' = Some (PDatetime now)
         \<and> update_step_status now2 (store\<lparr>workflow := pre @ w' # post\<rparr>) wid k s
             = update_step_status now2 store wid k s
         \<and> (\<exists>w'' d''. update_step_status now2 (store\<lparr>workflow := pre @ w' # post\<rparr>) wid k s
                 = (Inr (), store\<lparr>workflow := pre @ w'' # post\<rparr>)
               \<and> map_of w'' ''steps'' = Some (PList (before @ PDict d'' # after))
               \<and> map_of d'' ''status'' = map_of d' ''status'')"
proof -
  let ?d' = "mark_step now s d"
  let ?w' = "dict_set w ''steps'' (PList (before @ PDict ?d' # after))"
  let ?store' = "store\<lparr>workflow := pre @ ?w' # post\<rparr>"
  let ?d'' = "mark_step now2 s d"
  let ?w'' = "dict_set w ''steps'' (PList (before @ PDict ?d'' # after))"
  have first: "update_step_status now store wid k s = (Inr (), ?store')"
    using assms by (rule update_step_status_found)
  have once: "update_step_status now2 store wid k s
      = (Inr (), store\<lparr>workflow := pre @ ?w'' # post\<rparr>)"
    using assms by (rule update_step_status_found)
  have "update_step_status now2 ?store' wid k s =
      (Inr (), ?store'\<lparr>workflow :=
          pre @ dict_set ?w' ''steps'' (PList (before @ PDict (mark_step now2 s ?d') # after))
            # post\<rparr>)"
  proof (rule update_step_status_found [OF assms(1) _ assms(3) _ _ assms(6)])
    show "workflow ?store' = pre @ ?w' # post" by simp
    show "map_of ?w' ''_id'' = Some (PObjectId i)"
      using assms(4) by (simp add: dict_set_other)
    show "map_of ?w' ''steps'' = Some (PList (before @ PDict ?d' # after))"
      by (simp add: dict_set_same)
    show "dict_get ?d' ''key'' = PStr k"
      using assms(7) by (simp add: mark_step_key)
  qed
  then have second: "update_step_status now2 ?store' wid k s
      = (Inr (), store\<lparr>workflow := pre @ ?w'' # post\<rparr>)"
    by (simp add: dict_set_twice mark_step_twice)
  have keys: "map fst ?w' = map fst w"
    using assms(5) by (simp add: dict_set_keys)
  have others: "\<forall>f. f \<noteq> ''steps'' \<longrightarrow> map_of ?w' f = map_of w f"
    by (simp add: dict_set_other)
  have steps': "map_of ?w' ''steps'' = Some (PList (before @ PDict ?d' # after))"
    by (simp add: dict_set_same)
  have fields: "\<forall>f. f \<noteq> ''status'' \<and> f \<noteq> ''updated_at'' \<longrightarrow> map_of ?d' f = map_of d f"
    by (simp add: mark_step_fields)
  have again: "\<exists>w'' d''. update_step_status now2 ?store' wid k s
                 = (Inr (), store\<lparr>workflow := pre @ w'' # post\<rparr>)
               \<and> map_of w'' ''steps'' = Some (PList (before @ PDict d'' # after))
               \<and> map_of d'' ''status'' = map_of ?d' ''status''"
    using second by (intro exI [of _ ?w''] exI [of _ ?d''])
      (simp add: dict_set_same mark_step_fields)
  show ?thesis
    by (intro exI [of _ ?w'] exI [of _ ?d'] conjI first keys others steps' fields
        mark_step_fields(1) mark_step_fields(2) again) (simp add: second once)
qed

theorem update_changes_one_step_witness:
  "oid ''65f0a1b2c3d4e5f6a7b8c9d1'' = Inr ''65f0a1b2c3d4e5f6a7b8c9d1''
   \<and> (\<exists>w' d'. update_step_status (mk_datetime 2024 2 1 0 0 0) example_store
                 ''65f0a1b2c3d4e5f6a7b8c9d1'' ''draft_report'' ''done''
               = (Inr (), example_store\<lparr>workflow := [] @ w' # []\<rparr>)
         \<and> map_of w' ''steps'' = Some (PList (take 1 example_steps @ PDict d' # []))
         \<and> map_of d' ''status'' = Some (PStr ''done'')
         \<and> map_of d' ''updated_at'' = Some (PDatetime (mk_datetime 2024 2 1 0 0 0))
         \<and> map_of d' ''key'' = Some (PStr ''draft_report''))"
proof -
  have "\<forall>x\<in>set []. \<not> matches ''_id'' (PObjectId ''65f0a1b2c3d4e5f6a7b8c9d1'') x" by simp
  from update_changes_one_step [OF example_oid example_store_workflow this example_workflow_id
      example_workflow_steps example_before example_step_key,
      of "mk_datetime 2024 2 1 0 0 0" "''done''" "mk_datetime 2024 2 1 0 0 0"]
  obtain w' d' where
    "update_step_status (mk_datetime 2024 2 1 0 0 0) example_store
       ''65f0a1b2c3d4e5f6a7b8c9d1'' ''draft_report'' ''done''
       = (Inr (), example_store\<lparr>workflow := [] @ w' # []\<rparr>)"
    "map_of w' ''steps'' = Some (PList (take 1 example_steps @ PDict d' # []))"
    "map_of d' ''status'' = Some (PStr ''done'')"
    "map_of d' ''updated_at'' = Some (PDatetime (mk_datetime 2024 2 1 0 0 0))"
    "map_of d' ''key'' = Some (PStr ''draft_report'')"
    by (auto simp: example_steps_def)
  then show ?thesis using example_oid by blast
qed

text \<open>
  Claim C4. When no step of the workflow has the key \<open>k\<close>, \<^verbatim>\<open>update_step_status\<close>
  answers \<^verbatim>\<open>StepNotFound\<close>, the loop leaves every step as it was and nothing is written
  back; when the identifier finds no stored workflow it answers \<^verbatim>\<open>WorkflowNotFound\<close>;
  and whatever the error, the store after the call is the store before it.
\<close>

theorem update_failure_changes_nothing:
  "(oid wid = Inr i \<and> find_one (workflow store) ''_id'' (PObjectId i) = Some w
      \<and> dict_get_default w ''steps'' (PList []) = PList ss \<and> other_steps k ss
      \<longrightarrow> update_step_status now store wid k s = (Inl StepNotFound, store)
        \<and> update_loop now k s ss = Inr (False, ss))
   \<and> (oid wid = Inr i \<and> find_one (workflow store) ''_id'' (PObjectId i) = None
      \<longrightarrow> update_step_status now store wid k s = (Inl WorkflowNotFound, store))
   \<and> (\<forall>e. fst (update_step_status now store wid k s) = Inl e
      \<longrightarrow> snd (update_step_status now store wid k s) = store)"
proof (intro conjI impI allI)
  assume h: "oid wid = Inr i \<and> find_one (workflow store) ''_id'' (PObjectId i) = Some w
      \<and> dict_get_default w ''steps'' (PList []) = PList ss \<and> other_steps k ss"
  then show lp: "update_loop now k s ss = Inr (False, ss)"
    by (simp add: update_loop_not_found)
  show "update_step_status now store wid k s = (Inl StepNotFound, store)"
    using h lp by (simp add: update_step_status_def py_iter_def)
next
  assume "oid wid = Inr i \<and> find_one (workflow store) ''_id'' (PObjectId i) = None"
  then show "update_step_status now store wid k s = (Inl WorkflowNotFound, store)"
    by (simp add: update_step_status_def)
next
  fix e
  assume "fst (update_step_status now store wid k s) = Inl e"
  then show "snd (update_step_status now store wid k s) = store"
    by (auto simp: update_step_status_def split: sum.splits option.splits if_splits prod.splits)
qed

theorem update_failure_changes_nothing_witness:
  "update_step_status (mk_datetime 2024 2 1 0 0 0) example_store
       ''65f0a1b2c3d4e5f6a7b8c9d1'' ''nonexistent_key'' ''done'' = (Inl StepNotFound, example_store)
   \<and> update_step_status (mk_datetime 2024 2 1 0 0 0) example_store
       ''000000000000000000000000'' ''draft_report'' ''done''
       = (Inl WorkflowNotFound, example_store)"
proof -
  have st: "dict_get_default example_workflow ''steps'' (PList []) = PList example_steps"
    by (simp add: example_workflow_def dict_get_default_def)
  have "update_step_status (mk_datetime 2024 2 1 0 0 0) example_store
       ''65f0a1b2c3d4e5f6a7b8c9d1'' ''nonexistent_key'' ''done'' = (Inl StepNotFound, example_store)"
    using update_failure_changes_nothing [of "''65f0a1b2c3d4e5f6a7b8c9d1''"
        "''65f0a1b2c3d4e5f6a7b8c9d1''" example_store example_workflow example_steps
        "''nonexistent_key''" "mk_datetime 2024 2 1 0 0 0" "''done''"]
      example_oid example_find st example_no_such_step by blast
  moreover have "update_step_status (mk_datetime 2024 2 1 0 0 0) example_store
       ''000000000000000000000000'' ''draft_report'' ''done''
       = (Inl WorkflowNotFound, example_store)"
    using update_failure_changes_nothing [of "''000000000000000000000000''"
        "''000000000000000000000000''" example_store example_workflow example_steps
        "''draft_report''" "mk_datetime 2024 2 1 0 0 0" "''done''"]
      example_oid_zero example_find_zero by blast
  ultimately show ?thesis by blast
qed

text \<open>
  Claim C9. \<^verbatim>\<open>update_step_status\<close> checks neither the new status against
  \<^verbatim>\<open>todo\<close>, \<^verbatim>\<open>in_progress\<close>, \<^verbatim>\<open>blocked\<close>, \<^verbatim>\<open>done\<close> nor the dependencies of the step:
  for every workflow that holds a step of key \<open>k\<close> and every string \<open>s\<close> the update
  succeeds and the status of that step is \<open>s\<close>.
\<close>

theorem update_accepts_any_status:
  assumes "oid wid = Inr i"
    and "workflow store = pre @ w # post"
    and "\<forall>x\<in>set pre. \<not> matches ''_id'' (PObjectId i) x"
    and "map_of w ''_id'' = Some (PObjectId i)"
    and "map_of w ''steps'' = Some (PList (before @ PDict d # after))"
    and "other_steps k before"
    and "dict_get d ''key'' = PStr k"
  shows "\<exists>w' d'. update_step_status now store wid k s
             = (Inr (), store\<lparr>workflow := pre @ w' # post\<rparr>)
         \<and> dict_get w' ''steps'' = PList (before @ PDict d' # after)
         \<and> dict_get d' ''key'' = PStr k
         \<and> dict_get d' ''status'' = PStr s"
proof -
  let ?d' = "mark_step now s d"
  let ?w' = "dict_set w ''steps'' (PList (before @ PDict ?d' # after))"
  have "update_step_status now store wid k s = (Inr (), store\<lparr>workflow := pre @ ?w' # post\<rparr>)"
    using assms by (rule update_step_status_found)
  moreover have "dict_get ?w' ''steps'' = PList (before @ PDict ?d' # after)"
    by (simp add: dict_get_def dict_set_same)
  moreover have "dict_get ?d' ''key'' = PStr k"
    using assms(7) by (simp add: mark_step_key)
  moreover have "dict_get ?d' ''status'' = PStr s"
    by (simp add: dict_get_def mark_step_fields)
  ultimately show ?thesis by blast
qed

theorem update_accepts_any_status_witness:
  "\<exists>w' d'. update_step_status (mk_datetime 2024 2 1 0 0 0) example_store
                 ''65f0a1b2c3d4e5f6a7b8c9d1'' ''draft_report'' ''no such status''
               = (Inr (), example_store\<lparr>workflow := [] @ w' # []\<rparr>)
         \<and> dict_get w' ''steps'' = PList (take 1 example_steps @ PDict d' # [])
         \<and> dict_get d' ''key'' = PStr ''draft_report''
         \<and> dict_get d' ''status'' = PStr ''no such status''"
proof -
  have "\<forall>x\<in>set []. \<not> matches ''_id'' (PObjectId ''65f0a1b2c3d4e5f6a7b8c9d1'') x" by simp
  from update_accepts_any_status [OF example_oid example_store_workflow this example_workflow_id
      example_workflow_steps example_before example_step_key,
      of "mk_datetime 2024 2 1 0 0 0" "''no such status''"]
  show ?thesis by (simp add: example_steps_def)
qed

section \<open>Properties of the predictive client tracker\<close>

text \<open>
  With one reading \<open>now\<close> of the clock throughout a request, the loops of
  \<^verbatim>\<open>predictive_clients\<close> add 15 for every overdue step, and run on a list of clients
  they give each client the row of the specification's rule.
\<close>

lemma overdue_steps_const:
  assumes "\<forall>n. clock n = now" and "\<forall>x\<in>set ss. \<exists>d. x = PDict d"
  shows "\<exists>n'. overdue_steps clock ss (n, acc)
           = Inr (n', acc + 15 * int (length (filter (is_overdue now) ss)))"
  using assms(2)
proof (induction ss arbitrary: n acc)
  case Nil
  then show ?case by simp
next
  case (Cons x xs)
  then obtain d where x: "x = PDict d" by auto
  have xs: "\<forall>x\<in>set xs. \<exists>d. x = PDict d" using Cons.prems by simp
  have cn: "clock n = now" using assms(1) by simp
  show ?case
  proof (cases "dict_get d ''due_date''")
    case (PDatetime t)
    show ?thesis
    proof (cases "t < now \<and> dict_get_default d ''status'' (PStr ''todo'') \<noteq> PStr ''done''")
      case True
      then have ov: "is_overdue now x" by (simp add: is_overdue_def x PDatetime)
      obtain n' where n': "overdue_steps clock xs (Suc n, acc + 15)
          = Inr (n', acc + 15 + 15 * int (length (filter (is_overdue now) xs)))"
        using Cons.IH [OF xs, of "Suc n" "acc + 15"] by blast
      have "overdue_steps clock (x # xs) (n, acc) = overdue_steps clock xs (Suc n, acc + 15)"
        using True by (simp add: x PDatetime cn)
      also have "\<dots> = Inr (n', acc + 15 * int (length (filter (is_overdue now) (x # xs))))"
        using ov by (simp add: n')
      finally show ?thesis by blast
    next
      case False
      then have ov: "\<not> is_overdue now x" by (simp add: is_overdue_def x PDatetime)
      obtain n' where n': "overdue_steps clock xs (Suc n, acc)
          = Inr (n', acc + 15 * int (length (filter (is_overdue now) xs)))"
        using Cons.IH [OF xs, of "Suc n" acc] by blast
      have "overdue_steps clock (x # xs) (n, acc) = overdue_steps clock xs (Suc n, acc)"
        using False by (auto simp add: x PDatetime cn)
      also have "\<dots> = Inr (n', acc + 15 * int (length (filter (is_overdue now) (x # xs))))"
        using ov by (simp add: n')
      finally show ?thesis by blast
    qed
  qed (use Cons.IH [OF xs, of n acc] in \<open>simp_all add: x is_overdue_def\<close>)
qed

lemma overdue_workflows_const:
  assumes "\<forall>n. clock n = now"
    and "\<forall>w\<in>set ws. dict_get_default w ''steps'' (PList []) = PList (workflow_steps w)
            \<and> (\<forall>x\<in>set (workflow_steps w). \<exists>d. x = PDict d)"
  shows "\<exists>n'. overdue_workflows clock ws (n, acc)
           = Inr (n', acc + 15 * int (length (filter (is_overdue now)
                                        (concat (map workflow_steps ws)))))"
  using assms(2)
proof (induction ws arbitrary: n acc)
  case Nil
  then show ?case by simp
next
  case (Cons w ws)
  have it: "py_iter (dict_get_default w ''steps'' (PList [])) = Inr (workflow_steps w)"
    using Cons.prems by (simp add: py_iter_def)
  obtain n1 where n1: "overdue_steps clock (workflow_steps w) (n, acc)
      = Inr (n1, acc + 15 * int (length (filter (is_overdue now) (workflow_steps w))))"
    using overdue_steps_const [OF assms(1), of "workflow_steps w" n acc] Cons.prems by auto
  obtain n' where "overdue_workflows clock ws
        (n1, acc + 15 * int (length (filter (is_overdue now) (workflow_steps w))))
      = Inr (n', acc + 15 * int (length (filter (is_overdue now) (workflow_steps w)))
               + 15 * int (length (filter (is_overdue now) (concat (map workflow_steps ws)))))"
    using Cons.IH [of n1 "acc + 15 * int (length (filter (is_overdue now) (workflow_steps w)))"]
      Cons.prems by auto
  then show ?case
    by (simp add: it n1 algebra_simps)
qed

lemma risk_of_spec: "risk_of score = spec_risk_level score"
  by (simp add: risk_of_def spec_risk_level_def)

lemma predictive_loop_const:
  assumes "\<forall>n. clock n = now" and "stored_well store"
    and "\<forall>c\<in>set cs. map_of c ''_id'' \<noteq> None"
  shows "predictive_loop render clock store cs n = Inr (map (expected_row render now store) cs)"
  using assms(3)
proof (induction cs arbitrary: n)
  case Nil
  then show ?case by simp
next
  case (Cons c cs)
  then obtain i where i: "map_of c ''_id'' = Some i" by auto
  have item: "dict_item c ''_id'' = Inr i" by (simp add: dict_item_def i)
  have get: "dict_get c ''_id'' = i" by (simp add: dict_get_def i)
  let ?wfs = "find_all (workflow store) ''client_id'' (PStr (py_str render i))"
  have "\<forall>w\<in>set ?wfs. dict_get_default w ''steps'' (PList []) = PList (workflow_steps w)
            \<and> (\<forall>x\<in>set (workflow_steps w). \<exists>d. x = PDict d)"
    using assms(2) by (auto simp: stored_well_def find_all_def)
  then obtain n' where n': "overdue_workflows clock ?wfs (n, 0)
      = Inr (n', 0 + 15 * int (length (filter (is_overdue now) (concat (map workflow_steps ?wfs)))))"
    using overdue_workflows_const [OF assms(1), of ?wfs n 0] by blast
  have rest: "predictive_loop render clock store cs n' = Inr (map (expected_row render now store) cs)"
    using Cons.IH [of n'] Cons.prems by simp
  show ?case
    by (simp add: item n' rest Let_def expected_row_def client_documents_def client_workflows_def
        overdue_count_def spec_risk_score_def risk_of_spec get)
qed

lemma spec_risk_level_iff:
  "(spec_risk_level score = ''high'' \<longleftrightarrow> score \<ge> 85)
   \<and> (spec_risk_level score = ''medium'' \<longleftrightarrow> 70 \<le> score \<and> score < 85)
   \<and> (spec_risk_level score = ''low'' \<longleftrightarrow> score < 70)"
  by (simp add: spec_risk_level_def)

lemma expected_row_score:
  "risk_score (expected_row render now store c)
     = spec_risk_score (length (client_documents render store c))
         (overdue_count render now store c)"
  by (simp add: expected_row_def Let_def)

lemma expected_row_level:
  "risk_level (expected_row render now store c)
     = spec_risk_level (risk_score (expected_row render now store c))"
  by (simp add: expected_row_def Let_def)

lemma example_store_well: "stored_well example_store"
  by (simp add: stored_well_def example_store_def example_gst_client_def example_workflow_def
      workflow_steps_def dict_get_default_def example_steps_def)

lemma example_documents:
  "length (client_documents (\<lambda>v. []) example_store example_gst_client) = 2"
  by (simp add: client_documents_def example_store_def example_gst_client_def find_all_def
      matches_def dict_get_def py_str_def)

lemma example_workflows:
  "client_workflows (\<lambda>v. []) example_store example_gst_client = [example_workflow]"
  by (simp add: client_workflows_def example_store_def example_gst_client_def find_all_def
      matches_def dict_get_def py_str_def example_workflow_def)

lemma example_dates:
  "mk_datetime 2024 1 27 0 0 0 < mk_datetime 2024 2 1 0 0 0"
  "\<not> mk_datetime 2024 2 2 0 0 0 < mk_datetime 2024 2 1 0 0 0"
  by (simp_all add: mk_datetime_def ymd2ord_def days_before_year_def days_before_month_def
      days_in_month_def is_leap_def)

lemma example_overdue:
  "overdue_count (\<lambda>v. []) (mk_datetime 2024 2 1 0 0 0) example_store example_gst_client = 1"
  by (simp add: overdue_count_def example_workflows)
    (simp add: workflow_steps_def example_workflow_def dict_get_default_def example_steps_def
      is_overdue_def dict_get_def example_dates)

lemma example_clients: "client example_store = [example_gst_client]"
  by (simp add: example_store_def)

lemma example_loop:
  "predictive_loop (\<lambda>v. []) (\<lambda>n. mk_datetime 2024 2 1 0 0 0) example_store
     (client example_store) 0
   = Inr [\<lparr> row_client = serialize (\<lambda>v. []) example_gst_client, risk_score = 95,
             risk_level = ''high'', documents = 2, open_workflows = 1 \<rparr>]"
proof -
  have row: "expected_row (\<lambda>v. []) (mk_datetime 2024 2 1 0 0 0) example_store example_gst_client
      = \<lparr> row_client = serialize (\<lambda>v. []) example_gst_client, risk_score = 95,
           risk_level = ''high'', documents = 2, open_workflows = 1 \<rparr>"
    by (simp add: expected_row_def example_documents example_overdue example_workflows
        spec_risk_score_def spec_risk_level_def)
  have "predictive_loop (\<lambda>v. []) (\<lambda>n. mk_datetime 2024 2 1 0 0 0) example_store
      (client example_store) 0
      = Inr (map (expected_row (\<lambda>v. []) (mk_datetime 2024 2 1 0 0 0) example_store)
               (client example_store))"
    using example_store_well
    by (intro predictive_loop_const) (simp_all add: stored_well_def)
  then show ?thesis
    by (simp add: example_clients row)
qed

lemma example_expected_row:
  "risk_score (expected_row (\<lambda>v. []) (mk_datetime 2024 2 1 0 0 0) example_store
      example_gst_client) = 95"
  "risk_level (expected_row (\<lambda>v. []) (mk_datetime 2024 2 1 0 0 0) example_store
      example_gst_client) = ''high''"
  by (simp_all add: expected_row_def example_documents example_overdue
      spec_risk_score_def spec_risk_level_def)

text \<open>
  Claim C5. By the rule of the specification a client gets
  \<open>risk_score = min(100, 50 + missing_docs_penalty + overdue_penalty)\<close>, where
  \<open>missing_docs_penalty = max(0, 5 - documentCount) * 10\<close> and \<open>overdue_penalty\<close> is 15 times
  the number of steps, over all workflows of the client, whose due date is before
  \<open>now\<close> and whose status is not "done", with the level "high" from 85, "medium" from 70
  and "low" below; a client with 2 documents and 1 overdue open step gets the penalties
  30 and 15, the score 95 and the level "high". The endpoint does not compute it: on the
  store of the example, where the rule gives this client 95 and "high", its first
  statement \<^verbatim>\<open>db.client.find()\<close> raises \<^verbatim>\<open>TypeError\<close> and no row is returned. (The loops
  that follow would give the row of the rule, \<open>example_loop\<close>.)
\<close>

theorem risk_endpoint_raises:
  "predictive_clients (\<lambda>v. []) (\<lambda>n. mk_datetime 2024 2 1 0 0 0) example_store = Inl TypeError
   \<and> length (client_documents (\<lambda>v. []) example_store example_gst_client) = 2
   \<and> overdue_count (\<lambda>v. []) (mk_datetime 2024 2 1 0 0 0) example_store example_gst_client = 1
   \<and> risk_score (expected_row (\<lambda>v. []) (mk_datetime 2024 2 1 0 0 0) example_store
         example_gst_client) = 95
   \<and> risk_level (expected_row (\<lambda>v. []) (mk_datetime 2024 2 1 0 0 0) example_store
         example_gst_client) = ''high''"
  by (simp add: predictive_clients_def db_client_find_def example_documents example_overdue
      example_expected_row)

text \<open>
  Claim C10. In the risk computation a step adds to the overdue sum only when its
  stored \<^verbatim>\<open>due_date\<close> is a datetime: a step whose \<^verbatim>\<open>due_date\<close> is absent or not a
  datetime is never counted, whatever its status; and a step with no stored status
  counts as the same step with status "todo", so it is counted when its datetime
  \<^verbatim>\<open>due_date\<close> is in the past.
\<close>

theorem overdue_needs_datetime:
  "((\<forall>t. dict_get d ''due_date'' \<noteq> PDatetime t)
      \<longrightarrow> overdue_steps clock (PDict d # ss) (n, acc) = overdue_steps clock ss (n, acc))
   \<and> (overdue_steps clock [PDict d] (n, acc) = Inr (n', acc') \<and> acc' \<noteq> acc
      \<longrightarrow> (\<exists>t. dict_get d ''due_date'' = PDatetime t \<and> t < clock n) \<and> acc' = acc + 15)
   \<and> (map_of d ''status'' = None
      \<longrightarrow> overdue_steps clock (PDict d # ss) (n, acc)
          = overdue_steps clock (PDict (dict_set d ''status'' (PStr ''todo'')) # ss) (n, acc))
   \<and> (map_of d ''status'' = None \<and> dict_get d ''due_date'' = PDatetime t \<and> t < clock n
      \<longrightarrow> overdue_steps clock (PDict d # ss) (n, acc) = overdue_steps clock ss (Suc n, acc + 15))"
proof (intro conjI impI)
  assume "\<forall>t. dict_get d ''due_date'' \<noteq> PDatetime t"
  then show "overdue_steps clock (PDict d # ss) (n, acc) = overdue_steps clock ss (n, acc)"
    by (cases "dict_get d ''due_date''") simp_all
next
  assume h: "overdue_steps clock [PDict d] (n, acc) = Inr (n', acc') \<and> acc' \<noteq> acc"
  then show "\<exists>t. dict_get d ''due_date'' = PDatetime t \<and> t < clock n"
    by (cases "dict_get d ''due_date''") (auto split: if_splits)
  from h show "acc' = acc + 15"
    by (cases "dict_get d ''due_date''") (auto split: if_splits)
next
  assume h: "map_of d ''status'' = None"
  have "dict_get (dict_set d ''status'' (PStr ''todo'')) ''due_date'' = dict_get d ''due_date''"
    by (simp add: dict_get_def dict_set_other)
  moreover have "dict_get_default (dict_set d ''status'' (PStr ''todo'')) ''status'' (PStr ''todo'')
      = dict_get_default d ''status'' (PStr ''todo'')"
    using h by (simp add: dict_get_default_def dict_set_same)
  ultimately show "overdue_steps clock (PDict d # ss) (n, acc)
      = overdue_steps clock (PDict (dict_set d ''status'' (PStr ''todo'')) # ss) (n, acc)"
    by simp
next
  assume "map_of d ''status'' = None \<and> dict_get d ''due_date'' = PDatetime t \<and> t < clock n"
  then show "overdue_steps clock (PDict d # ss) (n, acc) = overdue_steps clock ss (Suc n, acc + 15)"
    by (simp add: dict_get_default_def)
qed

theorem overdue_needs_datetime_witness:
  "overdue_steps (\<lambda>n. mk_datetime 2024 2 1 0 0 0)
     [PDict [(''key'', PStr ''kickoff''), (''due_date'', PStr ''2024-01-27''),
             (''status'', PStr ''todo'')]] (0, 0) = Inr (0, 0)
   \<and> overdue_steps (\<lambda>n. mk_datetime 2024 2 1 0 0 0)
     [PDict [(''key'', PStr ''kickoff''),
             (''due_date'', PDatetime (mk_datetime 2024 1 27 0 0 0))]] (0, 0) = Inr (1, 15)"
proof -
  let ?clock = "\<lambda>n :: nat. mk_datetime 2024 2 1 0 0 0"
  let ?d1 = "[(''key'', PStr ''kickoff''), (''due_date'', PStr ''2024-01-27''),
              (''status'', PStr ''todo'')]"
  let ?d2 = "[(''key'', PStr ''kickoff''),
              (''due_date'', PDatetime (mk_datetime 2024 1 27 0 0 0))]"
  have "\<forall>t. dict_get ?d1 ''due_date'' \<noteq> PDatetime t"
    by (simp add: dict_get_def)
  then have "overdue_steps ?clock (PDict ?d1 # []) (0, 0) = overdue_steps ?clock [] (0, 0)"
    using overdue_needs_datetime [of ?d1 ?clock "[]" 0 0] by blast
  then have one: "overdue_steps ?clock [PDict ?d1] (0, 0) = Inr (0, 0)"
    by simp
  have "map_of ?d2 ''status'' = None
      \<and> dict_get ?d2 ''due_date'' = PDatetime (mk_datetime 2024 1 27 0 0 0)
      \<and> mk_datetime 2024 1 27 0 0 0 < ?clock 0"
    by (simp add: dict_get_def example_dates)
  then have "overdue_steps ?clock (PDict ?d2 # []) (0, 0) = overdue_steps ?clock [] (Suc 0, 0 + 15)"
    using overdue_needs_datetime [of ?d2 ?clock "[]" 0 0 _ _ "mk_datetime 2024 1 27 0 0 0"]
    by blast
  then have two: "overdue_steps ?clock [PDict ?d2] (0, 0) = Inr (1, 15)"
    by simp
  show ?thesis using one two by blast
qed

end
